(* ===== verification/Prelude.thy ===== *)
theory Prelude
  imports Main "HOL-Library.Sublist" "HOL-Library.Word"
begin

text \<open>
  Shared vocabulary of the glomeruli-viewer development: the types that name
  the model's data (bytes, file-system paths, JavaScript array indices), the
  collections of rewrite rules the component theories fill, and generic facts
  on lists and options that several components use.
\<close>

section \<open>Rule collections\<close>

named_theorems js_simps
  "evaluation rules of the JavaScript string and array primitives"
named_theorems fs_simps
  "evaluation rules of the Node file-system model"
named_theorems route_simps
  "evaluation rules of the HTTP route handlers"
named_theorems ui_simps
  "evaluation rules of the React components (state, handlers, render guards)"

section \<open>Types of the model\<close>

type_synonym byte = "8 word"
type_synonym bytes = "byte list"

text \<open>An absolute file-system path, as the list of its segment names from the root.\<close>
type_synonym path = "string list"

section \<open>Generic facts\<close>

lemma sublist_ConsI_tail [intro]: "sublist xs ys \<Longrightarrow> sublist xs (y # ys)"
  by (simp add: sublist_Cons_right)

lemma filter_mono_pred:
  "(\<And>x. x \<in> set xs \<Longrightarrow> P x \<Longrightarrow> Q x) \<Longrightarrow> subseq (filter P xs) (filter Q xs)"
  by (induction xs) auto

lemma length_filter_disjoint:
  assumes "\<And>x. x \<in> set xs \<Longrightarrow> \<not> (P x \<and> Q x)"
  shows "length (filter P xs) + length (filter Q xs) = length (filter (\<lambda>x. P x \<or> Q x) xs)"
  using assms by (induction xs) auto

end
