(* ===== verification/JsPrims.thy ===== *)
theory JsPrims
  imports Prelude
begin

text \<open>
  The JavaScript built-ins that the components call, as executable HOL
  functions: \<open>String.prototype.startsWith\<close>, \<open>endsWith\<close>, \<open>includes\<close>,
  \<open>replace\<close> with a string pattern (first occurrence only), \<open>split\<close> with a
  one-character separator and \<open>toLowerCase\<close>; \<open>Array.prototype.findIndex\<close>
  and array indexing, which reads \<open>undefined\<close> outside the array.
  A JavaScript string is a sequence of UTF-16 code units; here a \<open>char\<close> is a
  code unit below 256 (ASCII and Latin-1), the range in which
  \<open>toLowerCase\<close> is modelled exactly.  These are library functions of the
  language, not code of the repository; each is written from the ECMAScript
  definition and comes with the lemmas that relate it to the list library.
\<close>

section \<open>Prefix, suffix and substring tests\<close>

definition startsWith :: "string \<Rightarrow> string \<Rightarrow> bool" where
  "startsWith s t \<longleftrightarrow> prefix t s"

definition endsWith :: "string \<Rightarrow> string \<Rightarrow> bool" where
  "endsWith s t \<longleftrightarrow> suffix t s"

text \<open>\<open>s.includes(t)\<close>: the scan that tries every start position of \<open>s\<close>.\<close>

fun js_includes :: "string \<Rightarrow> string \<Rightarrow> bool" where
  "js_includes [] t \<longleftrightarrow> t = []"
| "js_includes (c # cs) t \<longleftrightarrow> prefix t (c # cs) \<or> js_includes cs t"

section \<open>Replacing the first occurrence\<close>

text \<open>
  \<open>s.replace(pat, rep)\<close> with a string \<open>pat\<close> replaces the leftmost
  occurrence only and returns \<open>s\<close> unchanged when there is none; an empty
  \<open>pat\<close> occurs at position 0.
\<close>

fun js_replace :: "string \<Rightarrow> string \<Rightarrow> string \<Rightarrow> string" where
  "js_replace [] pat rep = (if pat = [] then rep else [])"
| "js_replace (c # cs) pat rep =
     (if prefix pat (c # cs) then rep @ drop (length pat) (c # cs)
      else c # js_replace cs pat rep)"

section \<open>Splitting at a separator\<close>

text \<open>
  \<open>s.split(d)\<close> for a one-character separator \<open>d\<close>: the maximal pieces
  between separators, empty pieces included, so \<open>''''\<close> splits into one
  empty piece and the result is never empty.
\<close>

fun js_split :: "char \<Rightarrow> string \<Rightarrow> string list" where
  "js_split d [] = [[]]"
| "js_split d (c # cs) =
     (let r = js_split d cs in if c = d then [] # r else (c # hd r) # tl r)"

text \<open>The inverse used to state round trips: the pieces joined by the separator.\<close>

fun js_join :: "char \<Rightarrow> string list \<Rightarrow> string" where
  "js_join d [] = []"
| "js_join d [p] = p"
| "js_join d (p # ps) = p @ d # js_join d ps"

section \<open>Lower case\<close>

text \<open>
  \<open>toLowerCase\<close> on code units below 256: \<open>A\<close>--\<open>Z\<close> and the Latin-1 capitals
  (\<open>0xC0\<close>--\<open>0xDE\<close> without the multiplication sign \<open>0xD7\<close>) move down by 32,
  every other unit is kept.
\<close>

definition is_upper_unit :: "nat \<Rightarrow> bool" where
  "is_upper_unit n \<longleftrightarrow> (65 \<le> n \<and> n \<le> 90) \<or> (192 \<le> n \<and> n \<le> 222 \<and> n \<noteq> 215)"

definition lower_char :: "char \<Rightarrow> char" where
  "lower_char c = (if is_upper_unit (of_char c) then char_of (of_char c + (32::nat)) else c)"

definition toLowerCase :: "string \<Rightarrow> string" where
  "toLowerCase s = map lower_char s"

section \<open>Arrays: findIndex and indexing\<close>

text \<open>\<open>xs.findIndex(p)\<close>: the first index whose element satisfies \<open>p\<close>, else \<open>-1\<close>.\<close>

fun findIndex :: "('a \<Rightarrow> bool) \<Rightarrow> 'a list \<Rightarrow> int" where
  "findIndex P [] = -1"
| "findIndex P (x # xs) = (if P x then 0 else (let i = findIndex P xs in if i < 0 then -1 else i + 1))"

text \<open>\<open>xs[i]\<close>: \<open>undefined\<close> (here \<open>None\<close>) outside \<open>0 \<le> i < xs.length\<close>.\<close>

definition js_at :: "'a list \<Rightarrow> int \<Rightarrow> 'a option" where
  "js_at xs i = (if 0 \<le> i \<and> i < int (length xs) then Some (xs ! nat i) else None)"

section \<open>Evaluation rules\<close>

lemma endsWith_code [js_simps]: "endsWith s t \<longleftrightarrow> prefix (rev t) (rev s)"
  by (simp add: endsWith_def suffix_to_prefix)

lemmas [js_simps] = suffix_to_prefix startsWith_def js_at_def toLowerCase_def lower_char_def is_upper_unit_def
  char_of_def bit_0

section \<open>Substring search agrees with the sublist relation\<close>

lemma includes_sublist: "js_includes s t \<longleftrightarrow> sublist t s"
  by (induction s) (auto simp: sublist_Cons_right)

lemma includes_Nil [simp]: "js_includes s []"
  by (simp add: includes_sublist)

lemma includes_append_left: "js_includes s (t @ u) \<Longrightarrow> js_includes s t"
  by (auto simp: includes_sublist intro: sublist_order.order_trans)

lemma prefix_includes: "prefix t s \<Longrightarrow> js_includes s t"
  by (simp add: includes_sublist prefix_imp_sublist)

section \<open>First-occurrence replacement\<close>

lemma js_replace_absent: "\<not> sublist pat s \<Longrightarrow> js_replace s pat rep = s"
  by (induction s) (auto simp: sublist_Cons_right)

text \<open>
  If \<open>pat\<close> does not occur in \<open>u\<close> followed by the first \<open>|pat| - 1\<close> characters
  of \<open>pat\<close>, then the first occurrence in \<open>u @ pat @ v\<close> is the one after \<open>u\<close>.
\<close>

lemma js_replace_first:
  assumes "pat \<noteq> []" and "\<not> sublist pat (u @ butlast pat)"
  shows "js_replace (u @ pat @ v) pat rep = u @ rep @ v"
  using assms(2)
proof (induction u)
  case Nil
  from assms(1) obtain c cs where "pat = c # cs" by (cases pat) auto
  then show ?case by simp
next
  case (Cons c u)
  have no_tail: "\<not> sublist pat (u @ butlast pat)"
    using Cons.prems by (auto simp: sublist_Cons_right)
  have "\<not> prefix pat (c # u @ pat @ v)"
  proof
    assume pre: "prefix pat (c # u @ pat @ v)"
    have "prefix (c # u @ butlast pat) (c # u @ pat @ v)"
      using assms(1) by (simp add: prefix_def) (metis append_assoc append_butlast_last_id)
    moreover have "length pat \<le> length (c # u @ butlast pat)"
      by simp
    ultimately have "prefix pat (c # u @ butlast pat)"
      using pre by (blast intro: prefix_length_prefix)
    then show False
      using Cons.prems by (auto simp: prefix_imp_sublist)
  qed
  then show ?case using Cons.IH [OF no_tail] by simp
qed

lemma count_js_replace:
  assumes "c \<notin> set pat" and "c \<notin> set rep"
  shows "count_list (js_replace s pat rep) c = count_list s c"
proof (induction s)
  case Nil
  then show ?case using assms by (simp add: count_list_0_iff)
next
  case (Cons x xs)
  show ?case
  proof (cases "prefix pat (x # xs)")
    case True
    then obtain r where r: "x # xs = pat @ r" by (auto simp: prefix_def)
    have dr: "drop (length pat) (x # xs) = r"
      using r by simp
    have "js_replace (x # xs) pat rep = rep @ r"
      by (simp only: js_replace.simps True if_True dr)
    moreover have "count_list (x # xs) c = count_list r c"
      using assms by (simp only: r count_list_append) (simp add: count_list_0_iff)
    ultimately show ?thesis
      using assms by (simp add: count_list_0_iff)
  next
    case False
    with Cons.IH show ?thesis by simp
  qed
qed

section \<open>Split and join\<close>

lemma js_split_not_Nil [simp]: "js_split d s \<noteq> []"
  by (induction s) (auto simp: Let_def)

lemma js_split_pieces: "p \<in> set (js_split d s) \<Longrightarrow> d \<notin> set p"
proof (induction s arbitrary: p)
  case Nil
  then show ?case by simp
next
  case (Cons c cs)
  obtain q qs where r: "js_split d cs = q # qs"
    using js_split_not_Nil by (cases "js_split d cs") auto
  show ?case
    using Cons.prems Cons.IH r by (auto simp: Let_def split: if_splits)
qed

lemma js_join_split [simp]: "js_join d (js_split d s) = s"
proof (induction s)
  case Nil
  then show ?case by simp
next
  case (Cons c cs)
  obtain q qs where r: "js_split d cs = q # qs"
    using js_split_not_Nil by (cases "js_split d cs") auto
  show ?case
    using Cons.IH r by (cases qs) (auto simp: Let_def)
qed

lemma js_split_append_sep:
  "d \<notin> set p \<Longrightarrow> js_split d (p @ d # s) = p # js_split d s"
  by (induction p) (auto simp: Let_def)

lemma js_split_no_sep: "d \<notin> set p \<Longrightarrow> js_split d p = [p]"
  by (induction p) (auto simp: Let_def)

lemma js_split_join:
  "ps \<noteq> [] \<Longrightarrow> (\<forall>p \<in> set ps. d \<notin> set p) \<Longrightarrow> js_split d (js_join d ps) = ps"
proof (induction d ps rule: js_join.induct)
  case (3 d p q qs)
  then show ?case by (simp add: js_split_append_sep)
qed (simp_all add: js_split_no_sep)

lemma length_js_split: "length (js_split d s) = Suc (count_list s d)"
proof (induction s)
  case Nil
  then show ?case by simp
next
  case (Cons c cs)
  obtain q qs where r: "js_split d cs = q # qs"
    using js_split_not_Nil by (cases "js_split d cs") auto
  show ?case
    using Cons.IH r by (auto simp: Let_def)
qed

section \<open>Lower case is idempotent\<close>

lemma lower_char_idem [simp]: "lower_char (lower_char c) = lower_char c"
proof -
  have "of_char c < (256::nat)" by (rule nat_of_char_less_256)
  then show ?thesis
    by (auto simp: lower_char_def is_upper_unit_def)
qed

lemma toLowerCase_idem [simp]: "toLowerCase (toLowerCase s) = toLowerCase s"
  by (simp add: toLowerCase_def)

lemma toLowerCase_append [simp]: "toLowerCase (s @ t) = toLowerCase s @ toLowerCase t"
  by (simp add: toLowerCase_def)

section \<open>findIndex and indexing\<close>

lemma findIndex_range: "-1 \<le> findIndex P xs \<and> findIndex P xs < int (length xs)"
  by (induction xs) (auto simp: Let_def)

lemma findIndex_neg: "findIndex P xs < 0 \<longleftrightarrow> findIndex P xs = -1"
  using findIndex_range [of P xs] by arith

lemma findIndex_none: "findIndex P xs = -1 \<longleftrightarrow> (\<forall>x \<in> set xs. \<not> P x)"
proof (induction xs)
  case (Cons x xs)
  have "-1 \<le> findIndex P xs" using findIndex_range [of P xs] by simp
  with Cons.IH show ?case by (auto simp: Let_def findIndex_neg)
qed simp

lemma findIndex_found:
  "0 \<le> findIndex P xs \<Longrightarrow>
     P (xs ! nat (findIndex P xs)) \<and> (\<forall>j < nat (findIndex P xs). \<not> P (xs ! j))"
proof (induction xs)
  case Nil
  then show ?case by simp
next
  case (Cons x xs)
  show ?case
  proof (cases "P x")
    case True
    then show ?thesis by simp
  next
    case False
    with Cons.prems have ge: "0 \<le> findIndex P xs"
      by (auto simp: Let_def split: if_splits)
    then have "nat (findIndex P (x # xs)) = Suc (nat (findIndex P xs))"
      using False by (simp add: Let_def nat_add_distrib)
    with Cons.IH [OF ge] False show ?thesis
      by (auto simp: less_Suc_eq_0_disj)
  qed
qed

lemma findIndex_nth:
  assumes "i < length xs" and "P (xs ! i)" and "\<forall>j < i. \<not> P (xs ! j)"
  shows "findIndex P xs = int i"
  using assms
proof (induction xs arbitrary: i)
  case Nil
  then show ?case by simp
next
  case (Cons x xs)
  show ?case
  proof (cases i)
    case 0
    with Cons.prems show ?thesis by simp
  next
    case (Suc k)
    with Cons.prems have "\<not> P x" by auto
    moreover have "findIndex P xs = int k"
      using Cons.prems Suc by (intro Cons.IH) auto
    ultimately show ?thesis using Suc by (simp add: Let_def)
  qed
qed

lemma js_at_Some: "js_at xs i = Some x \<longleftrightarrow> 0 \<le> i \<and> i < int (length xs) \<and> xs ! nat i = x"
  by (auto simp: js_at_def)

end
