(* ===== verification/Gallery.thy ===== *)
theory Gallery
  imports JsPrims
begin

text \<open>
  The gallery, \<open>src/app/components/ImageViewer.tsx\<close>: the image record the
  client passes around, the search filter, the label derived from a file
  name, the component's own state (search term and grid/list mode), its
  rendering as the list of items it shows, and its event handler, whose
  output is the \<open>onImageSelect\<close> callback.
\<close>

section \<open>Data\<close>

text \<open>\<open>interface ImageData { filename: string; url: string }\<close>.\<close>

record ImageData =
  filename :: string
  url :: string

datatype view_mode = GridView | ListView

text \<open>The component's state: \<open>useState('')\<close> and \<open>useState('grid')\<close>.\<close>

record gallery =
  searchTerm :: string
  viewMode :: view_mode

definition gallery_init :: gallery where
  "gallery_init = \<lparr>searchTerm = [], viewMode = GridView\<rparr>"

section \<open>Search filter\<close>

text \<open>
  \<open>images.filter(image => image.filename.toLowerCase().includes(searchTerm.toLowerCase()))\<close>.
\<close>

definition matchesSearch :: "string \<Rightarrow> ImageData \<Rightarrow> bool" where
  "matchesSearch term img \<longleftrightarrow> js_includes (toLowerCase (filename img)) (toLowerCase term)"

definition filteredImages :: "ImageData list \<Rightarrow> string \<Rightarrow> ImageData list" where
  "filteredImages images term = filter (matchesSearch term) images"

section \<open>Labels\<close>

text \<open>
  \<open>getImageLabel\<close>: strip the first \<open>.jpg\<close>, split at underscores, and with at
  least seven pieces build \<open>"<stain> Slide <parts[4]> ROI <parts[6]>"\<close>, the
  stain \<open>HE\<close> written \<open>H&E\<close>; otherwise the stripped name.  The same function
  is copied verbatim into \<open>FullPageViewer.tsx\<close> (lines 78--93).
\<close>

definition stainLabel :: "string \<Rightarrow> string" where
  "stainLabel stain = (if stain = ''HE'' then ''H&E'' else stain)"

definition getImageLabel :: "string \<Rightarrow> string" where
  "getImageLabel fname =
     (let nameWithoutExt = js_replace fname ''.jpg'' [];
          parts = js_split (CHR ''_'') nameWithoutExt
      in if 7 \<le> length parts
         then stainLabel (parts ! 0) @ '' Slide '' @ parts ! 4 @ '' ROI '' @ parts ! 6
         else nameWithoutExt)"

section \<open>Rendering\<close>

text \<open>
  What the component shows: the counter \<open>Showing n of m images\<close>, the mode, one
  item per filtered image (its picture \<open>url\<close>, its label, and in list mode its
  file name), and the \<open>No images found\<close> message when nothing matches.
\<close>

record gallery_view =
  shown :: nat
  total :: nat
  mode :: view_mode
  items :: "(ImageData \<times> string) list"
  empty_message :: bool

definition renderGallery :: "ImageData list \<Rightarrow> gallery \<Rightarrow> gallery_view" where
  "renderGallery images g =
     (let fimgs = filteredImages images (searchTerm g) in
      \<lparr>shown = length fimgs, total = length images, mode = viewMode g,
       items = map (\<lambda>img. (img, getImageLabel (filename img))) fimgs,
       empty_message = (length fimgs = 0)\<rparr>)"

section \<open>Events\<close>

text \<open>
  Typing in the search box, the two mode buttons, and a click on the
  \<open>i\<close>-th rendered item, which calls \<open>onImageSelect(image)\<close>; the callback's
  argument is the second component of the result.
\<close>

datatype gallery_event = SearchInput string | GridClick | ListClick | ItemClick nat

fun gallery_step :: "ImageData list \<Rightarrow> gallery \<Rightarrow> gallery_event \<Rightarrow> gallery \<times> ImageData option" where
  "gallery_step images g (SearchInput s) = (g\<lparr>searchTerm := s\<rparr>, None)"
| "gallery_step images g GridClick = (g\<lparr>viewMode := GridView\<rparr>, None)"
| "gallery_step images g ListClick = (g\<lparr>viewMode := ListView\<rparr>, None)"
| "gallery_step images g (ItemClick i) =
     (let fimgs = filteredImages images (searchTerm g) in
      (g, if i < length fimgs then Some (fimgs ! i) else None))"

lemmas [ui_simps] = gallery_init_def matchesSearch_def filteredImages_def stainLabel_def
  getImageLabel_def renderGallery_def

section \<open>Search: ordering, case and narrowing\<close>

lemma search_member:
  "img \<in> set (filteredImages images t) \<longleftrightarrow>
     img \<in> set images \<and> sublist (toLowerCase t) (toLowerCase (filename img))"
  by (auto simp: filteredImages_def matchesSearch_def includes_sublist)

lemma search_subseq: "subseq (filteredImages images t) images"
  by (simp add: filteredImages_def)

text \<open>C19: the search is case-insensitive on both sides: a term and its
  lower-case form select the same images, and lower-casing every file name
  selects the same images (lower-cased).\<close>

theorem search_case_insensitive:
  "filteredImages images (toLowerCase t) = filteredImages images t \<and>
   filteredImages (map (\<lambda>img. img\<lparr>filename := toLowerCase (filename img)\<rparr>) images) t =
     map (\<lambda>img. img\<lparr>filename := toLowerCase (filename img)\<rparr>) (filteredImages images t)"
proof
  have "matchesSearch (toLowerCase t) = matchesSearch t"
    by (rule ext) (simp add: matchesSearch_def)
  then show "filteredImages images (toLowerCase t) = filteredImages images t"
    by (simp add: filteredImages_def)
next
  have "matchesSearch t \<circ> (\<lambda>img. img\<lparr>filename := toLowerCase (filename img)\<rparr>) = matchesSearch t"
    by (rule ext) (simp add: matchesSearch_def)
  then show "filteredImages (map (\<lambda>img. img\<lparr>filename := toLowerCase (filename img)\<rparr>) images) t =
      map (\<lambda>img. img\<lparr>filename := toLowerCase (filename img)\<rparr>) (filteredImages images t)"
    by (simp add: filteredImages_def filter_map)
qed

text \<open>C20: typing more characters only narrows the result: the images matching
  \<open>t @ u\<close> are a subsequence of those matching \<open>t\<close>, and the empty term shows
  every image.\<close>

theorem search_narrows:
  "subseq (filteredImages images (t @ u)) (filteredImages images t) \<and> filteredImages images [] = images"
proof
  show "subseq (filteredImages images (t @ u)) (filteredImages images t)"
    unfolding filteredImages_def
    by (rule filter_mono_pred) (auto simp: matchesSearch_def intro: includes_append_left)
  show "filteredImages images [] = images"
    by (simp add: filteredImages_def matchesSearch_def toLowerCase_def)
qed

section \<open>Rendering and clicks\<close>

lemma renderGallery_empty:
  "empty_message (renderGallery images g) \<longleftrightarrow> (\<forall>img \<in> set images. \<not> matchesSearch (searchTerm g) img)"
  by (auto simp: renderGallery_def Let_def filteredImages_def filter_empty_conv)

lemma renderGallery_items:
  "map fst (items (renderGallery images g)) = filteredImages images (searchTerm g) \<and>
   shown (renderGallery images g) = length (items (renderGallery images g)) \<and>
   shown (renderGallery images g) \<le> total (renderGallery images g)"
  by (simp add: renderGallery_def Let_def comp_def filteredImages_def)

text \<open>A click that selects an image picks it from the shown list, which is a
  sublist of all images, and leaves the gallery's state unchanged.\<close>

lemma gallery_click_member:
  assumes "gallery_step images g (ItemClick i) = (g', Some img)"
  shows "g' = g \<and> img \<in> set (filteredImages images (searchTerm g)) \<and> img \<in> set images"
  using assms by (auto simp: Let_def split: if_splits dest: subseq_filter_left [THEN list_emb_set])
    (metis filteredImages_def filter_is_subset nth_mem subsetD)

text \<open>C26: a click on a gallery item selects an image the gallery shows (one
  that matches the search) and leaves the gallery's state as it was.\<close>

theorem gallery_click_selects_shown:
  assumes "gallery_step images g (ItemClick i) = (g', Some img)"
  shows "g' = g \<and> img \<in> set (filteredImages images (searchTerm g)) \<and> img \<in> set images"
  using gallery_click_member [OF assms] .

section \<open>Labels\<close>

text \<open>The label's split: stripping \<open>.jpg\<close> keeps every underscore.\<close>

lemma label_split_length:
  "length (js_split (CHR ''_'') (js_replace fname ''.jpg'' [])) = Suc (count_list fname (CHR ''_''))"
  by (simp add: length_js_split count_js_replace)

text \<open>C22: a name with fewer than six underscores is shown with its first \<open>.jpg\<close>
  removed and nothing else changed.\<close>

theorem getImageLabel_short:
  assumes "count_list fname (CHR ''_'') < 6"
  shows "getImageLabel fname = js_replace fname ''.jpg'' []"
  using assms label_split_length [of fname] by (simp add: getImageLabel_def Let_def)

text \<open>C21: for a name made of at least seven underscore-free fields followed by
  \<open>.jpg\<close>, the label is the stain (\<open>HE\<close> shown as \<open>H&E\<close>), the fifth field as
  slide and the seventh as ROI.\<close>

theorem getImageLabel_fields:
  assumes "7 \<le> length ps" and "\<forall>p \<in> set ps. CHR ''_'' \<notin> set p"
    and "\<not> sublist ''.jpg'' (js_join (CHR ''_'') ps @ ''.jp'')"
  shows "getImageLabel (js_join (CHR ''_'') ps @ ''.jpg'') =
    (if ps ! 0 = ''HE'' then ''H&E'' else ps ! 0) @ '' Slide '' @ ps ! 4 @ '' ROI '' @ ps ! 6"
proof -
  have strip: "js_replace (js_join (CHR ''_'') ps @ ''.jpg'' @ []) ''.jpg'' [] = js_join (CHR ''_'') ps @ [] @ []"
    using assms(3) by (intro js_replace_first) simp_all
  have "ps \<noteq> []" using assms(1) by auto
  then have "js_split (CHR ''_'') (js_join (CHR ''_'') ps) = ps"
    using assms(2) by (rule js_split_join)
  with strip assms(1) show ?thesis by (simp add: getImageLabel_def stainLabel_def Let_def)
qed


section \<open>Witnesses\<close>

text \<open>The specification's example: the fields keep their \<open>S\<close> and \<open>ROI\<close>
  prefixes.\<close>

lemma getImageLabel_fields_witness:
  "getImageLabel ''HE_x_x_x_S3_x_ROI2.jpg'' = ''H&E Slide S3 ROI ROI2''"
proof -
  have "getImageLabel (js_join (CHR ''_'') [''HE'', ''x'', ''x'', ''x'', ''S3'', ''x'', ''ROI2''] @ ''.jpg'') =
      (if ''HE'' = ''HE'' then ''H&E'' else ''HE'') @ '' Slide '' @ ''S3'' @ '' ROI '' @ ''ROI2''"
    using getImageLabel_fields [of "[''HE'', ''x'', ''x'', ''x'', ''S3'', ''x'', ''ROI2'']"]
    by (simp add: sublist_code)
  then show ?thesis by simp
qed

lemma getImageLabel_short_witness: "getImageLabel ''HE_12.jpg'' = ''HE_12''"
  using getImageLabel_short [of "''HE_12.jpg''"] by simp

lemma gallery_click_selects_shown_witness:
  "snd (gallery_step [\<lparr>filename = ''HE_1.jpg'', url = ''/jpegs/HE_1.jpg''\<rparr>, \<lparr>filename = ''PAS_2.jpg'', url = ''/jpegs/PAS_2.jpg''\<rparr>]
      \<lparr>searchTerm = ''pas'', viewMode = GridView\<rparr> (ItemClick 0))
     = Some \<lparr>filename = ''PAS_2.jpg'', url = ''/jpegs/PAS_2.jpg''\<rparr> \<and>
   \<lparr>filename = ''PAS_2.jpg'', url = ''/jpegs/PAS_2.jpg''\<rparr>
     \<in> set (filteredImages [\<lparr>filename = ''HE_1.jpg'', url = ''/jpegs/HE_1.jpg''\<rparr>, \<lparr>filename = ''PAS_2.jpg'', url = ''/jpegs/PAS_2.jpg''\<rparr>] ''pas'')"
  using gallery_click_selects_shown
    [of "[\<lparr>filename = ''HE_1.jpg'', url = ''/jpegs/HE_1.jpg''\<rparr>, \<lparr>filename = ''PAS_2.jpg'', url = ''/jpegs/PAS_2.jpg''\<rparr>]"
        "\<lparr>searchTerm = ''pas'', viewMode = GridView\<rparr>" 0 "\<lparr>searchTerm = ''pas'', viewMode = GridView\<rparr>"
        "\<lparr>filename = ''PAS_2.jpg'', url = ''/jpegs/PAS_2.jpg''\<rparr>"]
  by (simp add: filteredImages_def matchesSearch_def js_simps)

end
