(* ===== verification/Viewer.thy ===== *)
theory Viewer
  imports Gallery
begin

text \<open>
  The full-screen viewer, \<open>src/app/components/FullPageViewer.tsx\<close>.  Its props
  are the selected image and the list it navigates in; its own state is the
  five \<open>useState\<close> hooks.  Every handler is a function of the props and the
  state to the new state and the callback it makes (\<open>onClose\<close> or
  \<open>onImageChange\<close>); the \<open>useEffect\<close> that resets the load flags is a
  separate function the page applies when the image's file name changes.
  The opacity is kept in tenths (\<open>6\<close> is \<open>0.6\<close>): the slider has step 0.1.
  The prop \<open>image\<close> is called \<open>img\<close> here (\<open>image\<close> is a HOL constant).
\<close>

section \<open>State\<close>

record viewer =
  showMask :: bool
  imageLoaded :: bool
  maskLoaded :: bool
  maskError :: bool
  maskOpacity :: nat

definition viewer_init :: viewer where
  "viewer_init =
     \<lparr>showMask = False, imageLoaded = False, maskLoaded = False, maskError = False, maskOpacity = 6\<rparr>"

text \<open>The callbacks a handler may make to the page.\<close>

datatype viewer_out = NoCall | CallClose | CallImageChange ImageData

section \<open>Position and navigation\<close>

text \<open>\<open>images.findIndex(img => img.filename === image.filename)\<close>.\<close>

definition currentIndex :: "ImageData \<Rightarrow> ImageData list \<Rightarrow> int" where
  "currentIndex img images = findIndex (\<lambda>x. filename x = filename img) images"

text \<open>
  \<open>goToPrevious\<close> and \<open>goToNext\<close>: call \<open>onImageChange\<close> with the neighbour if
  the guard holds.  The guards keep the index in range (\<open>currentIndex_range\<close>
  below), so \<open>images[...]\<close> is never \<open>undefined\<close> there.
\<close>

definition goToPrevious :: "ImageData \<Rightarrow> ImageData list \<Rightarrow> viewer_out" where
  "goToPrevious img images =
     (let i = currentIndex img images in
      if i > 0 then CallImageChange (images ! nat (i - 1)) else NoCall)"

definition goToNext :: "ImageData \<Rightarrow> ImageData list \<Rightarrow> viewer_out" where
  "goToNext img images =
     (let i = currentIndex img images in
      if i < int (length images) - 1 then CallImageChange (images ! nat (i + 1)) else NoCall)"

section \<open>Keyboard\<close>

text \<open>\<open>handleKeyDown\<close>: the \<open>switch (event.key)\<close>.\<close>

definition handleKeyDown :: "ImageData \<Rightarrow> ImageData list \<Rightarrow> viewer \<Rightarrow> string \<Rightarrow> viewer \<times> viewer_out" where
  "handleKeyDown img images v key =
     (if key = ''Escape'' then (v, CallClose)
      else if key = ''ArrowLeft'' then (v, goToPrevious img images)
      else if key = ''ArrowRight'' then (v, goToNext img images)
      else if key = ''m'' \<or> key = ''M'' then (v\<lparr>showMask := \<not> showMask v\<rparr>, NoCall)
      else (v, NoCall))"

section \<open>Effect and slider\<close>

text \<open>The \<open>useEffect\<close> with dependency \<open>[image.filename]\<close>: when the name changes,
  the three load flags are cleared; \<open>showMask\<close> and the opacity are kept.\<close>

definition resetOnImageChange :: "string \<Rightarrow> string \<Rightarrow> viewer \<Rightarrow> viewer" where
  "resetOnImageChange old new v =
     (if old = new then v else v\<lparr>imageLoaded := False, maskLoaded := False, maskError := False\<rparr>)"

text \<open>
  The range input \<open>min="0.1" max="1" step="0.1"\<close>: the browser only produces
  values in range, so a requested position (in tenths) is clamped.
\<close>

definition rangeInputValue :: "nat \<Rightarrow> nat" where
  "rangeInputValue n = max 1 (min 10 n)"

section \<open>Events\<close>

text \<open>
  The events the component receives: a key, the toggle and close buttons, the
  two arrows, the opacity slider, and the \<open>onLoad\<close>/\<open>onError\<close> of the image
  and of the mask.
\<close>

datatype viewer_event =
    KeyDown string | ToggleMaskClick | CloseClick | PrevClick | NextClick
  | OpacityInput nat | ImageLoad | MaskLoad | MaskLoadError

fun viewer_step :: "ImageData \<Rightarrow> ImageData list \<Rightarrow> viewer \<Rightarrow> viewer_event \<Rightarrow> viewer \<times> viewer_out" where
  "viewer_step img images v (KeyDown key) = handleKeyDown img images v key"
| "viewer_step img images v ToggleMaskClick = (v\<lparr>showMask := \<not> showMask v\<rparr>, NoCall)"
| "viewer_step img images v CloseClick = (v, CallClose)"
| "viewer_step img images v PrevClick = (v, goToPrevious img images)"
| "viewer_step img images v NextClick = (v, goToNext img images)"
| "viewer_step img images v (OpacityInput n) = (v\<lparr>maskOpacity := rangeInputValue n\<rparr>, NoCall)"
| "viewer_step img images v ImageLoad = (v\<lparr>imageLoaded := True\<rparr>, NoCall)"
| "viewer_step img images v MaskLoad = (v\<lparr>maskLoaded := True\<rparr>, NoCall)"
| "viewer_step img images v MaskLoadError = (v\<lparr>maskError := True\<rparr>, NoCall)"

text \<open>
  An element's handler can only fire while the element is rendered: the
  arrows under \<open>currentIndex > 0\<close> and \<open>currentIndex < images.length - 1\<close>,
  the slider under \<open>showMask\<close>, the mask \<open><img>\<close> under
  \<open>showMask && !maskError\<close>.
\<close>

fun viewer_enabled :: "ImageData \<Rightarrow> ImageData list \<Rightarrow> viewer \<Rightarrow> viewer_event \<Rightarrow> bool" where
  "viewer_enabled img images v PrevClick \<longleftrightarrow> currentIndex img images > 0"
| "viewer_enabled img images v NextClick \<longleftrightarrow> currentIndex img images < int (length images) - 1"
| "viewer_enabled img images v (OpacityInput n) \<longleftrightarrow> showMask v"
| "viewer_enabled img images v MaskLoad \<longleftrightarrow> showMask v \<and> \<not> maskError v"
| "viewer_enabled img images v MaskLoadError \<longleftrightarrow> showMask v \<and> \<not> maskError v"
| "viewer_enabled img images v _ \<longleftrightarrow> True"

section \<open>Rendering\<close>

text \<open>
  The overlay the user sees (lines 187--219): nothing without \<open>showMask\<close>;
  \<open>Mask Not Available\<close> after an error; the mask picture once loaded; the
  mask picture under \<open>Loading mask...\<close> before.
\<close>

datatype overlay = NoOverlay | MaskLoading | MaskShown | MaskUnavailable

definition overlay_of :: "viewer \<Rightarrow> overlay" where
  "overlay_of v =
     (if \<not> showMask v then NoOverlay
      else if maskError v then MaskUnavailable
      else if maskLoaded v then MaskShown
      else MaskLoading)"

record viewer_view =
  title :: string
  position :: "int \<times> nat"
  prev_arrow :: bool
  next_arrow :: bool
  opacity_percent :: "nat option"
  mask_src :: "string option"
  overlay :: overlay
  loading_indicator :: bool

definition renderViewer :: "ImageData \<Rightarrow> ImageData list \<Rightarrow> viewer \<Rightarrow> viewer_view" where
  "renderViewer img images v =
     (let i = currentIndex img images in
      \<lparr>title = getImageLabel (filename img),
       position = (i + 1, length images),
       prev_arrow = (i > 0),
       next_arrow = (i < int (length images) - 1),
       opacity_percent = (if showMask v then Some (10 * maskOpacity v) else None),
       mask_src = (if showMask v \<and> \<not> maskError v then Some (''/masks/'' @ filename img) else None),
       overlay = overlay_of v,
       loading_indicator = (\<not> imageLoaded v)\<rparr>)"

lemmas [ui_simps] = viewer_init_def currentIndex_def goToPrevious_def goToNext_def
  handleKeyDown_def resetOnImageChange_def rangeInputValue_def overlay_of_def renderViewer_def

section \<open>The index\<close>

lemma currentIndex_range: "-1 \<le> currentIndex img images \<and> currentIndex img images < int (length images)"
  by (simp add: currentIndex_def findIndex_range)

lemma currentIndex_nth:
  assumes "distinct (map filename images)" and "k < length images"
  shows "currentIndex (images ! k) images = int k"
proof -
  have "\<forall>j < k. filename (images ! j) \<noteq> filename (images ! k)"
    using assms by (auto simp: distinct_conv_nth)
  then show ?thesis
    unfolding currentIndex_def using assms(2) by (intro findIndex_nth) auto
qed

lemma currentIndex_absent:
  "(\<forall>x \<in> set images. filename x \<noteq> filename img) \<Longrightarrow> currentIndex img images = -1"
  by (simp add: currentIndex_def findIndex_none)

section \<open>Navigation\<close>

text \<open>The image a navigation asks for is always an element of the list.\<close>

lemma goToNext_member: "goToNext img images = CallImageChange x \<Longrightarrow> x \<in> set images"
  using currentIndex_range [of img images]
  by (auto simp: goToNext_def Let_def split: if_splits intro!: nth_mem)

lemma goToPrevious_member: "goToPrevious img images = CallImageChange x \<Longrightarrow> x \<in> set images"
  using currentIndex_range [of img images]
  by (auto simp: goToPrevious_def Let_def split: if_splits intro!: nth_mem)

lemma goToNext_nth:
  assumes "distinct (map filename images)" and "k < length images"
  shows "goToNext (images ! k) images =
    (if Suc k < length images then CallImageChange (images ! Suc k) else NoCall)"
  using assms by (simp add: goToNext_def currentIndex_nth nat_add_distrib)

lemma goToPrevious_nth:
  assumes "distinct (map filename images)" and "k < length images"
  shows "goToPrevious (images ! k) images =
    (if 0 < k then CallImageChange (images ! (k - 1)) else NoCall)"
proof -
  have "nat (int k - 1) = k - 1" by arith
  with assms show ?thesis by (simp add: goToPrevious_def currentIndex_nth)
qed

text \<open>C1: with distinct file names, the right arrow from position \<open>k\<close> asks for
  position \<open>k + 1\<close> when there is one, and makes no call at the last position
  (no wrap-around).\<close>

theorem goToNext_bounded:
  assumes "distinct (map filename images)" and "k < length images"
  shows "goToNext (images ! k) images =
    (if Suc k < length images then CallImageChange (images ! Suc k) else NoCall)"
  using assms by (rule goToNext_nth)

text \<open>C2: with distinct file names, the left arrow from position \<open>k\<close> asks for
  position \<open>k - 1\<close> when \<open>k > 0\<close>, and makes no call at the first position.\<close>

theorem goToPrevious_bounded:
  assumes "distinct (map filename images)" and "k < length images"
  shows "goToPrevious (images ! k) images =
    (if 0 < k then CallImageChange (images ! (k - 1)) else NoCall)"
  using assms by (rule goToPrevious_nth)

text \<open>C23: an image that is not in the list has index \<open>-1\<close>: the left arrow does
  nothing and the right arrow jumps to the first image of the list.\<close>

theorem navigation_from_absent:
  assumes "\<forall>x \<in> set images. filename x \<noteq> filename img"
  shows "goToPrevious img images = NoCall \<and>
    goToNext img images = (if images = [] then NoCall else CallImageChange (images ! 0))"
  using assms by (simp add: goToPrevious_def goToNext_def currentIndex_absent)

text \<open>C31: each navigation arrow is rendered exactly when clicking it moves to
  another image of the list: the render guards \<open>currentIndex > 0\<close> and
  \<open>currentIndex < images.length - 1\<close> are the guards of the handlers.\<close>

theorem arrows_match_navigation:
  "(next_arrow (renderViewer img images v) \<longleftrightarrow>
      (\<exists>x \<in> set images. goToNext img images = CallImageChange x)) \<and>
   (prev_arrow (renderViewer img images v) \<longleftrightarrow>
      (\<exists>x \<in> set images. goToPrevious img images = CallImageChange x))"
  using currentIndex_range [of img images]
  by (auto simp: renderViewer_def goToNext_def goToPrevious_def Let_def intro!: nth_mem)

section \<open>Keys, effect and opacity\<close>

text \<open>C28: a key other than Escape, the two arrows, \<open>m\<close> and \<open>M\<close> changes nothing
  and calls nothing.\<close>

theorem handleKeyDown_other:
  "key \<notin> {''Escape'', ''ArrowLeft'', ''ArrowRight'', ''m'', ''M''} \<Longrightarrow> handleKeyDown img images v key = (v, NoCall)"
  by (simp add: handleKeyDown_def)

lemma handleKeyDown_M_twice:
  "key \<in> {''m'', ''M''} \<Longrightarrow>
     fst (handleKeyDown img images (fst (handleKeyDown img images v key)) key) = v"
  by (auto simp: handleKeyDown_def)

lemma resetOnImageChange_changed:
  "old \<noteq> new \<Longrightarrow>
     overlay_of (resetOnImageChange old new v) = (if showMask v then MaskLoading else NoOverlay) \<and>
     \<not> imageLoaded (resetOnImageChange old new v) \<and>
     showMask (resetOnImageChange old new v) = showMask v \<and>
     maskOpacity (resetOnImageChange old new v) = maskOpacity v"
  by (simp add: resetOnImageChange_def overlay_of_def)

definition opacity_ok :: "viewer \<Rightarrow> bool" where
  "opacity_ok v \<longleftrightarrow> 1 \<le> maskOpacity v \<and> maskOpacity v \<le> 10"

lemma opacity_ok_init [simp]: "opacity_ok viewer_init"
  by (simp add: opacity_ok_def viewer_init_def)

lemma opacity_ok_reset [simp]: "opacity_ok (resetOnImageChange old new v) = opacity_ok v"
  by (simp add: opacity_ok_def resetOnImageChange_def)

lemma viewer_step_opacity: "opacity_ok v \<Longrightarrow> opacity_ok (fst (viewer_step img images v e))"
  by (cases e) (auto simp: opacity_ok_def rangeInputValue_def handleKeyDown_def)

text \<open>What a mask load or a mask error does to the overlay.\<close>

lemma viewer_step_mask_events:
  "viewer_enabled img images v MaskLoad \<Longrightarrow>
     overlay_of (fst (viewer_step img images v MaskLoad)) = MaskShown"
  "viewer_enabled img images v MaskLoadError \<Longrightarrow>
     overlay_of (fst (viewer_step img images v MaskLoadError)) = MaskUnavailable"
  by (simp_all add: overlay_of_def)


section \<open>Witnesses\<close>

lemma goToNext_bounded_witness:
  "goToNext (\<lparr>filename = ''a.jpg'', url = ''/jpegs/a.jpg''\<rparr>)
     [\<lparr>filename = ''a.jpg'', url = ''/jpegs/a.jpg''\<rparr>, \<lparr>filename = ''b.jpg'', url = ''/jpegs/b.jpg''\<rparr>]
   = CallImageChange \<lparr>filename = ''b.jpg'', url = ''/jpegs/b.jpg''\<rparr> \<and>
   goToNext (\<lparr>filename = ''b.jpg'', url = ''/jpegs/b.jpg''\<rparr>)
     [\<lparr>filename = ''a.jpg'', url = ''/jpegs/a.jpg''\<rparr>, \<lparr>filename = ''b.jpg'', url = ''/jpegs/b.jpg''\<rparr>]
   = NoCall"
  using goToNext_bounded [of "[\<lparr>filename = ''a.jpg'', url = ''/jpegs/a.jpg''\<rparr>, \<lparr>filename = ''b.jpg'', url = ''/jpegs/b.jpg''\<rparr>]" 0]
    goToNext_bounded [of "[\<lparr>filename = ''a.jpg'', url = ''/jpegs/a.jpg''\<rparr>, \<lparr>filename = ''b.jpg'', url = ''/jpegs/b.jpg''\<rparr>]" 1]
  by simp

lemma goToPrevious_bounded_witness:
  "goToPrevious (\<lparr>filename = ''b.jpg'', url = ''/jpegs/b.jpg''\<rparr>)
     [\<lparr>filename = ''a.jpg'', url = ''/jpegs/a.jpg''\<rparr>, \<lparr>filename = ''b.jpg'', url = ''/jpegs/b.jpg''\<rparr>]
   = CallImageChange \<lparr>filename = ''a.jpg'', url = ''/jpegs/a.jpg''\<rparr> \<and>
   goToPrevious (\<lparr>filename = ''a.jpg'', url = ''/jpegs/a.jpg''\<rparr>)
     [\<lparr>filename = ''a.jpg'', url = ''/jpegs/a.jpg''\<rparr>, \<lparr>filename = ''b.jpg'', url = ''/jpegs/b.jpg''\<rparr>]
   = NoCall"
  using goToPrevious_bounded [of "[\<lparr>filename = ''a.jpg'', url = ''/jpegs/a.jpg''\<rparr>, \<lparr>filename = ''b.jpg'', url = ''/jpegs/b.jpg''\<rparr>]" 1]
    goToPrevious_bounded [of "[\<lparr>filename = ''a.jpg'', url = ''/jpegs/a.jpg''\<rparr>, \<lparr>filename = ''b.jpg'', url = ''/jpegs/b.jpg''\<rparr>]" 0]
  by simp

lemma navigation_from_absent_witness:
  "goToPrevious (\<lparr>filename = ''x.jpg'', url = ''/jpegs/x.jpg''\<rparr>) [\<lparr>filename = ''a.jpg'', url = ''/jpegs/a.jpg''\<rparr>] = NoCall \<and>
   goToNext (\<lparr>filename = ''x.jpg'', url = ''/jpegs/x.jpg''\<rparr>) [\<lparr>filename = ''a.jpg'', url = ''/jpegs/a.jpg''\<rparr>]
     = CallImageChange \<lparr>filename = ''a.jpg'', url = ''/jpegs/a.jpg''\<rparr>"
  using navigation_from_absent [of "[\<lparr>filename = ''a.jpg'', url = ''/jpegs/a.jpg''\<rparr>]" "\<lparr>filename = ''x.jpg'', url = ''/jpegs/x.jpg''\<rparr>"]
  by simp

lemma handleKeyDown_other_witness:
  "handleKeyDown (\<lparr>filename = ''a.jpg'', url = ''/jpegs/a.jpg''\<rparr>) [] viewer_init ''Enter'' = (viewer_init, NoCall)"
  using handleKeyDown_other [of "''Enter''" "\<lparr>filename = ''a.jpg'', url = ''/jpegs/a.jpg''\<rparr>" "[]" viewer_init]
  by simp

end
