(* ===== verification/NodeFs.thy ===== *)
theory NodeFs
  imports JsPrims
begin

text \<open>
  The part of Node.js that the API routes call: a read-only file system
  (\<open>fs.readdirSync\<close>, \<open>fs.existsSync\<close>, \<open>fs.readFileSync\<close> and the promise
  \<open>fs/promises.readFile\<close>) and POSIX \<open>path.join\<close>.  The routes never write,
  so the file system is a value that every request reads: an association list
  from absolute paths to nodes, a node being a file with its bytes or a
  directory with its entry names in enumeration order.  These are library
  functions, written from the Node documentation; the route handlers of
  \<open>src/app/api\<close> are modelled over them in \<open>ApiRoutes\<close>.
\<close>

section \<open>File-system state\<close>

datatype node = File bytes | Dir "string list"

type_synonym fs = "(path \<times> node) list"

definition fs_lookup :: "fs \<Rightarrow> path \<Rightarrow> node option" where
  "fs_lookup fs p = map_of fs p"

datatype fs_error = ENOENT | ENOTDIR | EISDIR

text \<open>
  A name a directory can hold: not empty, not \<open>.\<close> or \<open>..\<close>, no separator.
  A well-formed file system lists each directory's entries once, every listed
  entry exists, and every path but the root is listed in its parent.
\<close>

definition valid_name :: "string \<Rightarrow> bool" where
  "valid_name x \<longleftrightarrow> x \<noteq> [] \<and> x \<noteq> ''.'' \<and> x \<noteq> ''..'' \<and> CHR ''/'' \<notin> set x"

definition fs_wf :: "fs \<Rightarrow> bool" where
  "fs_wf fs \<longleftrightarrow>
     (\<forall>(p, n) \<in> set fs. fs_lookup fs p = Some n \<longrightarrow>
        (case n of
           Dir ns \<Rightarrow> distinct ns \<and> (\<forall>x \<in> set ns. valid_name x \<and> fs_lookup fs (p @ [x]) \<noteq> None)
         | File _ \<Rightarrow> True)
        \<and> (p \<noteq> [] \<longrightarrow> (\<exists>ns. fs_lookup fs (butlast p) = Some (Dir ns) \<and> last p \<in> set ns)))"

section \<open>path.join\<close>

text \<open>
  \<open>path.join(base, a\<^sub>1, ..., a\<^sub>n)\<close> joins its arguments with \<open>/\<close> and
  normalises the result: empty and \<open>.\<close> segments vanish, \<open>..\<close> removes the
  segment before it (never above the root), and the result keeps a trailing
  separator exactly when the joined string ends with one.  The base is
  \<open>process.cwd()\<close>, already an absolute normalised path.
\<close>

fun resolve_segs :: "path \<Rightarrow> string list \<Rightarrow> path" where
  "resolve_segs acc [] = acc"
| "resolve_segs acc (s # ss) =
     resolve_segs (if s = [] \<or> s = ''.'' then acc else if s = ''..'' then butlast acc else acc @ [s]) ss"

definition ends_with_sep :: "string list \<Rightarrow> bool" where
  "ends_with_sep args \<longleftrightarrow> (let ne = filter (\<lambda>a. a \<noteq> []) args in ne \<noteq> [] \<and> last (last ne) = CHR ''/'')"

definition path_join :: "path \<Rightarrow> string list \<Rightarrow> path \<times> bool" where
  "path_join base args =
     (resolve_segs base (concat (map (js_split (CHR ''/'')) args)), ends_with_sep args)"

section \<open>Reading\<close>

text \<open>
  Resolving a joined path: a file named with a trailing separator is
  \<open>ENOTDIR\<close>.  (A path through a file is \<open>ENOTDIR\<close> in Node and \<open>ENOENT\<close>
  here; no route distinguishes the two.)
\<close>

definition fs_stat :: "fs \<Rightarrow> path \<times> bool \<Rightarrow> fs_error + node" where
  "fs_stat fs pt =
     (case fs_lookup fs (fst pt) of
        None \<Rightarrow> Inl ENOENT
      | Some (File b) \<Rightarrow> (if snd pt then Inl ENOTDIR else Inr (File b))
      | Some (Dir ns) \<Rightarrow> Inr (Dir ns))"

definition existsSync :: "fs \<Rightarrow> path \<times> bool \<Rightarrow> bool" where
  "existsSync fs pt \<longleftrightarrow> (case fs_stat fs pt of Inl _ \<Rightarrow> False | Inr _ \<Rightarrow> True)"

definition readFileSync :: "fs \<Rightarrow> path \<times> bool \<Rightarrow> fs_error + bytes" where
  "readFileSync fs pt =
     (case fs_stat fs pt of
        Inl e \<Rightarrow> Inl e
      | Inr (File b) \<Rightarrow> Inr b
      | Inr (Dir _) \<Rightarrow> Inl EISDIR)"

text \<open>\<open>fs/promises.readFile\<close> reads the same; its rejection is the error.\<close>

definition readFile :: "fs \<Rightarrow> path \<times> bool \<Rightarrow> fs_error + bytes" where
  "readFile fs pt = readFileSync fs pt"

definition readdirSync :: "fs \<Rightarrow> path \<times> bool \<Rightarrow> fs_error + string list" where
  "readdirSync fs pt =
     (case fs_stat fs pt of
        Inl e \<Rightarrow> Inl e
      | Inr (Dir ns) \<Rightarrow> Inr ns
      | Inr (File _) \<Rightarrow> Inl ENOTDIR)"

lemmas [fs_simps] = fs_lookup_def valid_name_def path_join_def ends_with_sep_def fs_stat_def
  existsSync_def readFileSync_def readFile_def readdirSync_def

section \<open>Joining plain names\<close>

lemma resolve_segs_append: "resolve_segs acc (xs @ ys) = resolve_segs (resolve_segs acc xs) ys"
  by (induction acc xs rule: resolve_segs.induct) auto

lemma resolve_segs_valid: "\<forall>x \<in> set xs. valid_name x \<Longrightarrow> resolve_segs acc xs = acc @ xs"
  by (induction acc xs rule: resolve_segs.induct) (auto simp: valid_name_def)

lemma split_valid_name: "valid_name x \<Longrightarrow> js_split (CHR ''/'') x = [x]"
  by (simp add: valid_name_def js_split_no_sep)

lemma not_ends_with_sep:
  assumes "\<forall>x \<in> set args. x \<noteq> [] \<longrightarrow> last x \<noteq> CHR ''/''"
  shows "\<not> ends_with_sep args"
proof
  assume "ends_with_sep args"
  then obtain ne where ne: "ne = filter (\<lambda>a. a \<noteq> []) args" "ne \<noteq> []"
    and sep: "last (last ne) = CHR ''/''"
    by (auto simp: ends_with_sep_def Let_def)
  then have "last ne \<in> set args" and "last ne \<noteq> []"
    using last_in_set [of ne] by auto
  with sep assms show False by blast
qed

lemma valid_name_last: "valid_name x \<Longrightarrow> x \<noteq> [] \<and> last x \<noteq> CHR ''/''"
  by (auto simp: valid_name_def dest: last_in_set)

lemma concat_split_names:
  "\<forall>x \<in> set args. valid_name x \<Longrightarrow> concat (map (js_split (CHR ''/'')) args) = args"
  by (induction args) (auto simp: split_valid_name)

text \<open>Joining names that contain no separator and no dot segment just appends them.\<close>

lemma path_join_names:
  assumes "\<forall>x \<in> set args. valid_name x"
  shows "path_join base args = (base @ args, False)"
proof -
  have "\<not> ends_with_sep args"
    using assms by (intro not_ends_with_sep) (auto dest: valid_name_last)
  then show ?thesis
    using assms by (simp add: path_join_def resolve_segs_valid concat_split_names)
qed

text \<open>A leading \<open>..\<close> climbs one directory above the base first.\<close>

lemma path_join_parent:
  assumes "\<forall>x \<in> set args. valid_name x"
  shows "path_join base (''..'' # args) = (butlast base @ args, False)"
proof -
  have "\<not> ends_with_sep (''..'' # args)"
    using assms by (intro not_ends_with_sep) (auto dest: valid_name_last)
  then show ?thesis
    using assms by (simp add: path_join_def resolve_segs_valid concat_split_names)
qed

section \<open>Reading a well-formed file system\<close>

lemma readFileSync_Inr:
  "readFileSync fs pt = Inr b \<longleftrightarrow> fs_lookup fs (fst pt) = Some (File b) \<and> \<not> snd pt"
  by (auto simp: readFileSync_def fs_stat_def split: option.splits node.splits sum.splits)

lemma readdirSync_Inr:
  "readdirSync fs pt = Inr ns \<longleftrightarrow> fs_lookup fs (fst pt) = Some (Dir ns)"
  by (auto simp: readdirSync_def fs_stat_def split: option.splits node.splits sum.splits)

lemma existsSync_iff:
  "existsSync fs pt \<longleftrightarrow> (\<exists>n. fs_lookup fs (fst pt) = Some n \<and> (snd pt \<longrightarrow> (\<exists>ns. n = Dir ns)))"
  by (auto simp: existsSync_def fs_stat_def split: option.splits node.splits)

lemma fs_wf_dir:
  assumes "fs_wf fs" and "fs_lookup fs p = Some (Dir ns)"
  shows "distinct ns \<and> (\<forall>x \<in> set ns. valid_name x \<and> fs_lookup fs (p @ [x]) \<noteq> None)"
proof -
  have "(p, Dir ns) \<in> set fs"
    using assms(2) by (simp add: fs_lookup_def map_of_SomeD)
  with assms show ?thesis by (fastforce simp: fs_wf_def)
qed

end
