(* ===== verification/ApiRoutes.thy ===== *)
theory ApiRoutes
  imports NodeFs
begin

text \<open>
  The server side: the three route handlers under \<open>src/app/api\<close>, the
  rewrites of \<open>src/next.config.js\<close>, and the part of the Next.js server that
  connects them to a URL (public files first, then the rewrites, then the
  file-system routes).  A handler is a function of the working directory
  \<open>process.cwd()\<close>, the file system and the route parameter to the response;
  every \<open>try\<close>/\<open>catch\<close> and early return of the source is a branch.
\<close>

section \<open>Responses\<close>

text \<open>
  The bodies the routes produce: the JSON listing \<open>{images: [...]}\<close>, a JSON
  error \<open>{error: ...}\<close>, raw bytes, and the framework's not-found page.
\<close>

datatype body = JsonImages "string list" | JsonError string | Raw bytes | NotFoundPage

record response =
  status :: nat
  content_type :: string
  cache_control :: "string option"
  body :: body

text \<open>\<open>NextResponse.json(obj, {status})\<close>.\<close>

definition json_response :: "nat \<Rightarrow> body \<Rightarrow> response" where
  "json_response st b =
     \<lparr>status = st, content_type = ''application/json'', cache_control = None, body = b\<rparr>"

definition immutable_cache :: string where
  "immutable_cache = ''public, max-age=31536000''"

section \<open>GET /api/images: the dataset lister\<close>

text \<open>\<open>src/app/api/images/route.ts\<close>, \<open>GET\<close>.\<close>

definition GET_images :: "path \<Rightarrow> fs \<Rightarrow> response" where
  "GET_images cwd fs =
     (let datasetPath = path_join cwd [''public'', ''jpegs''] in
      case readdirSync fs datasetPath of
        Inr files \<Rightarrow> json_response 200 (JsonImages (filter (\<lambda>file. endsWith file ''.jpg'') files))
      | Inl _ \<Rightarrow> json_response 500 (JsonError ''Failed to read images''))"

section \<open>GET /api/images/[filename]: the image server\<close>

text \<open>\<open>src/app/api/images/[filename]/route.ts\<close>, \<open>GET\<close>.\<close>

definition GET_image :: "path \<Rightarrow> fs \<Rightarrow> string \<Rightarrow> response" where
  "GET_image cwd fs filename =
     (let datasetPath = path_join cwd [''..'', ''dataset_web_jpeg'', filename] in
      if \<not> existsSync fs datasetPath
      then json_response 404 (JsonError ''Image not found'')
      else (case readFileSync fs datasetPath of
              Inr imageBuffer \<Rightarrow>
                \<lparr>status = 200, content_type = ''image/jpeg'',
                 cache_control = Some immutable_cache, body = Raw imageBuffer\<rparr>
            | Inl _ \<Rightarrow> json_response 500 (JsonError ''Failed to serve image'')))"

section \<open>GET /api/masks/[filename]: the mask server\<close>

text \<open>
  \<open>src/app/api/masks/[filename]/route.ts\<close>, the active \<open>GET\<close> (the resizing
  variant above it is commented out).  The mask name replaces the first
  \<open>.jpg\<close>; any rejection of \<open>readFile\<close> is answered with 404.
\<close>

definition mask_filename :: "string \<Rightarrow> string" where
  "mask_filename filename = js_replace filename ''.jpg'' ''_mask.png''"

definition GET_mask :: "path \<Rightarrow> fs \<Rightarrow> string \<Rightarrow> response" where
  "GET_mask cwd fs filename =
     (let maskFilename = mask_filename filename;
          maskPath = path_join cwd [''public'', ''masks'', maskFilename] in
      case readFile fs maskPath of
        Inr fileBuffer \<Rightarrow>
          \<lparr>status = 200, content_type = ''image/png'',
           cache_control = Some immutable_cache, body = Raw fileBuffer\<rparr>
      | Inl _ \<Rightarrow> json_response 404 (JsonError ''Mask not found''))"

section \<open>Rewrites of next.config.js\<close>

text \<open>
  A rule \<open>source: '/x/:path*', destination: '/y/:path*'\<close> matches \<open>/x\<close> and
  every path below it and carries the rest over; the first matching rule wins
  and an unmatched path is kept.
\<close>

definition rewrite_rule :: "string \<times> string \<Rightarrow> string \<Rightarrow> string option" where
  "rewrite_rule r url =
     (if url = fst r then Some (snd r)
      else if prefix (fst r @ ''/'') url then Some (snd r @ drop (length (fst r)) url)
      else None)"

definition nextConfig_rewrites :: "(string \<times> string) list" where
  "nextConfig_rewrites = [(''/images'', ''/api/images''), (''/masks'', ''/api/masks'')]"

fun apply_rewrites :: "(string \<times> string) list \<Rightarrow> string \<Rightarrow> string" where
  "apply_rewrites [] url = url"
| "apply_rewrites (r # rs) url =
     (case rewrite_rule r url of Some url' \<Rightarrow> url' | None \<Rightarrow> apply_rewrites rs url)"

section \<open>The server\<close>

text \<open>
  The Next.js server around the handlers (framework behaviour, not code of
  the repository): a file under \<open>public/\<close> is served as it is; otherwise the
  rewrites apply and the app router dispatches on the file-system routes,
  passing one path segment as \<open>params.filename\<close>.  URLs are taken as already
  decoded.
\<close>

definition mime_of :: "string \<Rightarrow> string" where
  "mime_of name =
     (if suffix ''.jpg'' name then ''image/jpeg''
      else if suffix ''.png'' name then ''image/png''
      else ''application/octet-stream'')"

definition public_file :: "path \<Rightarrow> fs \<Rightarrow> string \<Rightarrow> response option" where
  "public_file cwd fs url =
     (case url of
        CHR ''/'' # rest \<Rightarrow>
          (let segs = js_split (CHR ''/'') rest in
           if \<forall>x \<in> set segs. valid_name x then
             (case fs_lookup fs (cwd @ ''public'' # segs) of
                Some (File b) \<Rightarrow>
                  Some \<lparr>status = 200, content_type = mime_of (last segs),
                        cache_control = None, body = Raw b\<rparr>
              | _ \<Rightarrow> None)
           else None)
      | _ \<Rightarrow> None)"

definition route_segment :: "string \<Rightarrow> string \<Rightarrow> string option" where
  "route_segment base url =
     (if prefix (base @ ''/'') url \<and> valid_name (drop (Suc (length base)) url)
      then Some (drop (Suc (length base)) url) else None)"

definition app_route :: "path \<Rightarrow> fs \<Rightarrow> string \<Rightarrow> response option" where
  "app_route cwd fs url =
     (if url = ''/api/images'' then Some (GET_images cwd fs)
      else case route_segment ''/api/images'' url of
        Some filename \<Rightarrow> Some (GET_image cwd fs filename)
      | None \<Rightarrow> (case route_segment ''/api/masks'' url of
          Some filename \<Rightarrow> Some (GET_mask cwd fs filename)
        | None \<Rightarrow> None))"

definition serve :: "path \<Rightarrow> fs \<Rightarrow> string \<Rightarrow> response" where
  "serve cwd fs url =
     (case public_file cwd fs url of
        Some r \<Rightarrow> r
      | None \<Rightarrow> (case app_route cwd fs (apply_rewrites nextConfig_rewrites url) of
                  Some r \<Rightarrow> r
                | None \<Rightarrow> json_response 404 NotFoundPage))"

lemmas [route_simps] = json_response_def immutable_cache_def GET_images_def GET_image_def
  mask_filename_def GET_mask_def rewrite_rule_def nextConfig_rewrites_def mime_of_def
  public_file_def route_segment_def app_route_def serve_def

section \<open>Path lemmas for the routes\<close>

lemma valid_name_literals [simp]:
  "valid_name ''public''" "valid_name ''jpegs''" "valid_name ''masks''"
  "valid_name ''dataset_web_jpeg''"
  by (simp_all add: valid_name_def)

lemma listing_path: "path_join cwd [''public'', ''jpegs''] = (cwd @ [''public'', ''jpegs''], False)"
  by (simp add: path_join_names)

lemma image_path:
  "valid_name f \<Longrightarrow>
     path_join cwd [''..'', ''dataset_web_jpeg'', f] = (butlast cwd @ [''dataset_web_jpeg'', f], False)"
  by (simp add: path_join_parent)

lemma mask_path:
  "valid_name m \<Longrightarrow> path_join cwd [''public'', ''masks'', m] = (cwd @ [''public'', ''masks'', m], False)"
  by (simp add: path_join_names)

section \<open>The dataset lister\<close>

lemma GET_images_dir:
  assumes "fs_lookup fs (cwd @ [''public'', ''jpegs'']) = Some (Dir ns)"
  shows "GET_images cwd fs = json_response 200 (JsonImages (filter (\<lambda>f. suffix ''.jpg'' f) ns))"
  using assms by (simp add: GET_images_def listing_path readdirSync_def fs_stat_def endsWith_def)

lemma GET_images_nodir:
  assumes "\<forall>ns. fs_lookup fs (cwd @ [''public'', ''jpegs'']) \<noteq> Some (Dir ns)"
  shows "GET_images cwd fs = json_response 500 (JsonError ''Failed to read images'')"
proof -
  have "\<forall>ns. readdirSync fs (cwd @ [''public'', ''jpegs''], False) \<noteq> Inr ns"
    using assms by (simp add: readdirSync_Inr)
  then show ?thesis
    by (auto simp: GET_images_def listing_path split: sum.splits)
qed

lemma GET_images_names:
  assumes "fs_wf fs" and "GET_images cwd fs = json_response 200 (JsonImages xs)"
  shows "distinct xs \<and>
    (\<forall>x \<in> set xs. valid_name x \<and> suffix ''.jpg'' x \<and> fs_lookup fs (cwd @ [''public'', ''jpegs'', x]) \<noteq> None)"
proof -
  obtain ns where ns: "fs_lookup fs (cwd @ [''public'', ''jpegs'']) = Some (Dir ns)"
    and xs: "xs = filter (\<lambda>f. suffix ''.jpg'' f) ns"
    using assms(2)
    by (auto simp: GET_images_def listing_path readdirSync_Inr endsWith_def json_response_def
        split: sum.splits)
  from fs_wf_dir [OF assms(1) ns] xs show ?thesis by auto
qed

section \<open>The mask server\<close>

lemma mask_filename_strip:
  assumes "\<not> sublist ''.jpg'' (x @ ''.jp'')"
  shows "mask_filename (x @ ''.jpg'') = x @ ''_mask.png''"
proof -
  have "js_replace (x @ ''.jpg'' @ []) ''.jpg'' ''_mask.png'' = x @ ''_mask.png'' @ []"
    using assms by (intro js_replace_first) simp_all
  then show ?thesis by (simp add: mask_filename_def)
qed

lemma GET_mask_file:
  assumes "valid_name (mask_filename f)"
    and "fs_lookup fs (cwd @ [''public'', ''masks'', mask_filename f]) = Some (File b)"
  shows "GET_mask cwd fs f =
    \<lparr>status = 200, content_type = ''image/png'', cache_control = Some immutable_cache, body = Raw b\<rparr>"
  using assms by (simp add: GET_mask_def mask_path readFile_def readFileSync_def fs_stat_def)

lemma GET_mask_nofile:
  assumes "valid_name (mask_filename f)"
    and "\<forall>b. fs_lookup fs (cwd @ [''public'', ''masks'', mask_filename f]) \<noteq> Some (File b)"
  shows "GET_mask cwd fs f = json_response 404 (JsonError ''Mask not found'')"
proof -
  have "\<forall>b. readFile fs (cwd @ [''public'', ''masks'', mask_filename f], False) \<noteq> Inr b"
    using assms(2) by (simp add: readFile_def readFileSync_Inr)
  then show ?thesis
    using assms(1) by (auto simp: GET_mask_def mask_path split: sum.splits)
qed

lemma split_dotdot:
  assumes "valid_name n"
  shows "js_split (CHR ''/'') (''../../'' @ n) = [''..'', ''..'', n]"
  using assms by (simp add: valid_name_def js_split_no_sep Let_def)

lemma traversal_path:
  assumes "valid_name n"
  shows "path_join cwd [''public'', ''masks'', ''../../'' @ n] = (cwd @ [n], False)"
proof -
  have "\<not> ends_with_sep [''public'', ''masks'', ''../../'' @ n]"
    using assms by (intro not_ends_with_sep) (auto dest: valid_name_last)
  then show ?thesis
    using assms by (simp add: path_join_def split_dotdot split_valid_name valid_name_def butlast_append)
qed

section \<open>Routing\<close>

lemma route_segment_append:
  "valid_name f \<Longrightarrow> route_segment base (base @ ''/'' @ f) = Some f"
  by (simp add: route_segment_def)

lemma rewrite_masks: "apply_rewrites nextConfig_rewrites (''/masks/'' @ f) = ''/api/masks/'' @ f"
  by (simp add: nextConfig_rewrites_def rewrite_rule_def)

lemma rewrite_images: "apply_rewrites nextConfig_rewrites (''/images/'' @ f) = ''/api/images/'' @ f"
  by (simp add: nextConfig_rewrites_def rewrite_rule_def)

lemma split_dir_name:
  "valid_name d \<Longrightarrow> valid_name f \<Longrightarrow> js_split (CHR ''/'') (d @ ''/'' @ f) = [d, f]"
  by (simp add: valid_name_def js_split_append_sep js_split_no_sep)

text \<open>A URL \<open>/masks/<f>\<close> for a plain name \<open>f\<close> that is not itself a file of
  \<open>public/masks\<close> reaches the mask handler with \<open>params.filename = f\<close>.\<close>

lemma serve_mask_url:
  assumes "valid_name f"
    and "\<forall>b. fs_lookup fs (cwd @ [''public'', ''masks'', f]) \<noteq> Some (File b)"
  shows "serve cwd fs (''/masks/'' @ f) = GET_mask cwd fs f"
proof -
  have "public_file cwd fs (''/masks/'' @ f) = None"
    using assms split_dir_name [of "''masks''" f]
    by (auto simp: public_file_def Let_def split: option.splits node.splits)
  moreover have "app_route cwd fs (''/api/masks/'' @ f) = Some (GET_mask cwd fs f)"
    using assms(1) route_segment_append [of f "''/api/masks''"]
    by (simp add: app_route_def route_segment_def)
  ultimately show ?thesis
    unfolding serve_def rewrite_masks by simp
qed

text \<open>A URL \<open>/jpegs/<f>\<close> naming a file of \<open>public/jpegs\<close> is served from there.\<close>

lemma serve_jpegs_url:
  assumes "valid_name f" and "fs_lookup fs (cwd @ [''public'', ''jpegs'', f]) = Some (File b)"
  shows "serve cwd fs (''/jpegs/'' @ f) =
    \<lparr>status = 200, content_type = mime_of f, cache_control = None, body = Raw b\<rparr>"
  using assms split_dir_name [of "''jpegs''" f]
  by (simp add: serve_def public_file_def Let_def)


text \<open>A URL \<open>/images/<f>\<close> for a plain name \<open>f\<close> that is not a file of
  \<open>public/images\<close> reaches the image handler with \<open>params.filename = f\<close>.\<close>

lemma serve_image_url:
  assumes "valid_name f"
    and "\<forall>b. fs_lookup fs (cwd @ [''public'', ''images'', f]) \<noteq> Some (File b)"
  shows "serve cwd fs (''/images/'' @ f) = GET_image cwd fs f"
proof -
  have "public_file cwd fs (''/images/'' @ f) = None"
    using assms split_dir_name [of "''images''" f]
    by (auto simp: public_file_def Let_def valid_name_def split: option.splits node.splits)
  moreover have "app_route cwd fs (''/api/images/'' @ f) = Some (GET_image cwd fs f)"
    using assms(1) route_segment_append [of f "''/api/images''"]
    by (simp add: app_route_def route_segment_def)
  ultimately show ?thesis
    unfolding serve_def rewrite_images by simp
qed

section \<open>Properties of the routes\<close>

text \<open>C7: when \<open>public/jpegs\<close> is a directory, the lister answers 200 with exactly its
  entries that end in \<open>.jpg\<close>, in enumeration order.\<close>

theorem GET_images_lists_jpgs:
  assumes "fs_lookup fs (cwd @ [''public'', ''jpegs'']) = Some (Dir ns)"
  shows "GET_images cwd fs = json_response 200 (JsonImages (filter (\<lambda>f. suffix ''.jpg'' f) ns))"
  using assms by (rule GET_images_dir)

text \<open>C8: when \<open>public/jpegs\<close> cannot be read as a directory, the lister answers 500
  with a JSON error.\<close>

theorem GET_images_unreadable:
  assumes "\<forall>ns. fs_lookup fs (cwd @ [''public'', ''jpegs'']) \<noteq> Some (Dir ns)"
  shows "GET_images cwd fs = json_response 500 (JsonError ''Failed to read images'')"
  using assms by (rule GET_images_nodir)

text \<open>C5: the mask of \<open>X.jpg\<close> is looked up as \<open>X_mask.png\<close>, when \<open>.jpg\<close> does not
  already occur earlier in the name.\<close>

theorem mask_filename_jpg:
  assumes "\<not> sublist ''.jpg'' (x @ ''.jp'')"
  shows "mask_filename (x @ ''.jpg'') = x @ ''_mask.png''"
  using assms by (rule mask_filename_strip)

text \<open>C6: when \<open>public/masks\<close> holds no file of the derived name, the mask server
  answers 404 with a JSON error, also when the name is a directory (a read failure,
  which the specification's taxonomy answers with 500).\<close>

theorem GET_mask_missing_404:
  assumes "valid_name (mask_filename f)"
    and "\<forall>b. fs_lookup fs (cwd @ [''public'', ''masks'', mask_filename f]) \<noteq> Some (File b)"
  shows "GET_mask cwd fs f = json_response 404 (JsonError ''Mask not found'')"
  using assms by (rule GET_mask_nofile)

text \<open>C27: the mask handler does not confine its path to \<open>public/masks\<close>: a
  parameter \<open>../../n\<close> without \<open>.jpg\<close> is read as \<open>n\<close> in the working directory
  and served as a PNG.\<close>

theorem GET_mask_traversal:
  assumes "valid_name n" and "\<not> sublist ''.jpg'' n" and "fs_lookup fs (cwd @ [n]) = Some (File b)"
  shows "GET_mask cwd fs (''../../'' @ n) =
    \<lparr>status = 200, content_type = ''image/png'', cache_control = Some immutable_cache, body = Raw b\<rparr>"
proof -
  have mf: "mask_filename (''../../'' @ n) = ''../../'' @ n"
    using assms(2) by (simp add: mask_filename_def js_replace_absent)
  show ?thesis
    unfolding GET_mask_def Let_def mf traversal_path [OF assms(1)]
    using assms(3) by (simp add: readFile_def readFileSync_def fs_stat_def)
qed

text \<open>C30: the rewrites of \<open>next.config.js\<close> and the app router bring
  \<open>/images/<f>\<close> to the image handler and \<open>/masks/<f>\<close> to the mask handler with
  \<open>params.filename = f\<close>, for a plain file name \<open>f\<close> that no public file shadows.\<close>

theorem serve_routes:
  assumes "valid_name f"
    and "\<forall>b. fs_lookup fs (cwd @ [''public'', ''images'', f]) \<noteq> Some (File b)"
    and "\<forall>b. fs_lookup fs (cwd @ [''public'', ''masks'', f]) \<noteq> Some (File b)"
  shows "serve cwd fs (''/images/'' @ f) = GET_image cwd fs f \<and>
    serve cwd fs (''/masks/'' @ f) = GET_mask cwd fs f"
  using serve_image_url [OF assms(1,2)] serve_mask_url [OF assms(1,3)] by simp

text \<open>C9: for a plain file name the image route's answer on every branch: 404
  when \<open>../dataset_web_jpeg/<f>\<close> does not exist, 500 when it is a directory
  (\<open>readFileSync\<close> throws \<open>EISDIR\<close> into the \<open>catch\<close>), and 200 with the bytes of
  a file.\<close>

theorem GET_image_cases:
  assumes "valid_name f"
  shows "GET_image cwd fs f =
    (case fs_lookup fs (butlast cwd @ [''dataset_web_jpeg'', f]) of
       None \<Rightarrow> json_response 404 (JsonError ''Image not found'')
     | Some (Dir _) \<Rightarrow> json_response 500 (JsonError ''Failed to serve image'')
     | Some (File b) \<Rightarrow>
         \<lparr>status = 200, content_type = ''image/jpeg'', cache_control = Some immutable_cache, body = Raw b\<rparr>)"
  using assms
  by (simp add: GET_image_def image_path existsSync_def fs_stat_def readFileSync_def
      split: option.split node.split)

section \<open>Witnesses\<close>

lemma GET_images_lists_jpgs_witness:
  "GET_images [''app''] [([''app'', ''public'', ''jpegs''], Dir [''HE_1.jpg'', ''notes.txt''])] =
     json_response 200 (JsonImages [''HE_1.jpg''])"
  using GET_images_lists_jpgs
    [of "[([''app'', ''public'', ''jpegs''], Dir [''HE_1.jpg'', ''notes.txt''])]" "[''app'']" "[''HE_1.jpg'', ''notes.txt'']"]
  by (simp add: fs_lookup_def js_simps)

lemma GET_images_unreadable_witness:
  "GET_images [''app''] [([''app'', ''public'', ''jpegs''], File [])] =
     json_response 500 (JsonError ''Failed to read images'')"
  using GET_images_unreadable [of "[([''app'', ''public'', ''jpegs''], File [])]" "[''app'']"]
  by (simp add: fs_lookup_def)

lemma mask_filename_jpg_witness: "mask_filename ''HE_1.jpg'' = ''HE_1_mask.png''"
  using mask_filename_jpg [of "''HE_1''"] by (simp add: sublist_code)

lemma GET_mask_missing_404_witness:
  "GET_mask [''app''] [([''app'', ''public'', ''masks'', ''HE_1_mask.png''], Dir [])] ''HE_1.jpg'' =
     json_response 404 (JsonError ''Mask not found'')"
  using GET_mask_missing_404 [of "''HE_1.jpg''" "[([''app'', ''public'', ''masks'', ''HE_1_mask.png''], Dir [])]" "[''app'']"]
  by (simp add: mask_filename_def fs_lookup_def valid_name_def)

lemma GET_mask_traversal_witness:
  "GET_mask [''srv'', ''app''] [([''srv'', ''app'', ''.env''], File [83])] ''../../.env'' =
     \<lparr>status = 200, content_type = ''image/png'', cache_control = Some immutable_cache, body = Raw [83]\<rparr>"
  using GET_mask_traversal [of "''.env''" "[([''srv'', ''app'', ''.env''], File [83])]" "[''srv'', ''app'']" "[83]"]
  by (simp add: fs_lookup_def valid_name_def sublist_code)


lemma serve_routes_witness:
  "serve [''srv''] [([''srv'', ''public'', ''masks'', ''HE_1_mask.png''], File [1])] ''/images/HE_1.jpg'' =
     GET_image [''srv''] [([''srv'', ''public'', ''masks'', ''HE_1_mask.png''], File [1])] ''HE_1.jpg'' \<and>
   serve [''srv''] [([''srv'', ''public'', ''masks'', ''HE_1_mask.png''], File [1])] ''/masks/HE_1.jpg'' =
     GET_mask [''srv''] [([''srv'', ''public'', ''masks'', ''HE_1_mask.png''], File [1])] ''HE_1.jpg''"
  using serve_routes [of "''HE_1.jpg''" "[([''srv'', ''public'', ''masks'', ''HE_1_mask.png''], File [1])]" "[''srv'']"]
  by (simp add: valid_name_def fs_lookup_def)


lemma GET_image_cases_witness:
  "GET_image [''srv'', ''app''] [([''srv'', ''dataset_web_jpeg''], Dir [''HE_1.jpg''])] ''HE_1.jpg'' =
     json_response 404 (JsonError ''Image not found'')"
  using GET_image_cases [of "''HE_1.jpg''" "[''srv'', ''app'']" "[([''srv'', ''dataset_web_jpeg''], Dir [''HE_1.jpg''])]"]
  by (simp add: valid_name_def fs_lookup_def)

end
