(* ===== verification/Page.thy ===== *)
theory Page
  imports Viewer ApiRoutes
begin

text \<open>
  The page orchestrator, \<open>src/app/page.tsx\<close> (\<open>Home\<close>): its four \<open>useState\<close>
  hooks, the one fetch of \<open>/api/images\<close> on mount, the stain tabs and their
  counts, the selection callbacks, and the composition with its two children.
  The page's state record also holds the children's states: the gallery is
  mounted once loading is over, the viewer while an image is selected; React
  keeps a child's state while it stays mounted and drops it on unmount.  The
  composed system is a step function on this record over the events any part
  can receive, with the render guards as enabling conditions, and its
  reachable states an inductive predicate.  The viewer's modes are related
  to the specification's machine (section 4.4) twice: by a refinement of an
  abstract mode machine that also remembers the mask's load, and by a
  simulation of the specification's five modes up to three extra steps.
\<close>

section \<open>Tabs and counts\<close>

datatype tab = TabAll | TabHE | TabPAS

definition tab_name :: "tab \<Rightarrow> string" where
  "tab_name t = (case t of TabAll \<Rightarrow> ''all'' | TabHE \<Rightarrow> ''HE'' | TabPAS \<Rightarrow> ''PAS'')"

text \<open>\<open>filteredImages\<close> of the page (lines 50--53).\<close>

definition tabFilter :: "ImageData list \<Rightarrow> tab \<Rightarrow> ImageData list" where
  "tabFilter images activeTab =
     filter (\<lambda>x. if activeTab = TabAll then True else startsWith (filename x) (tab_name activeTab)) images"

definition heCount :: "ImageData list \<Rightarrow> nat" where
  "heCount images = length (filter (\<lambda>x. startsWith (filename x) ''HE'') images)"

definition pasCount :: "ImageData list \<Rightarrow> nat" where
  "pasCount images = length (filter (\<lambda>x. startsWith (filename x) ''PAS'') images)"

section \<open>Fetching the listing\<close>

text \<open>\<open>{ filename, url: `/jpegs/${filename}` }\<close>.\<close>

definition mkImageData :: "string \<Rightarrow> ImageData" where
  "mkImageData f = \<lparr>filename = f, url = ''/jpegs/'' @ f\<rparr>"

text \<open>
  What \<open>await response.json()\<close> gives \<open>fetchImages\<close>: the field
  \<open>data.images\<close> when the body is JSON (absent in an error object), or a
  rejection when the body is not JSON or the request failed.
\<close>

datatype fetch_outcome = FetchRejected | FetchJson "string list option"

definition responseJson :: "response \<Rightarrow> fetch_outcome" where
  "responseJson r =
     (case body r of
        JsonImages xs \<Rightarrow> FetchJson (Some xs)
      | JsonError _ \<Rightarrow> FetchJson None
      | _ \<Rightarrow> FetchRejected)"

section \<open>State\<close>

record page =
  page_images :: "ImageData list"
  page_loading :: bool
  selectedImage :: "ImageData option"
  activeTab :: tab
  gallery_state :: gallery
  viewer_state :: viewer

definition page_init :: page where
  "page_init =
     \<lparr>page_images = [], page_loading = True, selectedImage = None, activeTab = TabAll,
      gallery_state = gallery_init, viewer_state = viewer_init\<rparr>"

definition page_filtered :: "page \<Rightarrow> ImageData list" where
  "page_filtered p = tabFilter (page_images p) (activeTab p)"

section \<open>Handlers\<close>

text \<open>
  The end of \<open>fetchImages\<close>: with \<open>data.images\<close> the list becomes the images;
  in every case \<open>finally\<close> clears \<open>loading\<close>, which mounts the gallery.
\<close>

definition fetchImagesDone :: "page \<Rightarrow> fetch_outcome \<Rightarrow> page" where
  "fetchImagesDone p r =
     (let p' = (case r of
                  FetchJson (Some names) \<Rightarrow> p\<lparr>page_images := map mkImageData names\<rparr>
                | _ \<Rightarrow> p)
      in p'\<lparr>page_loading := False, gallery_state := gallery_init\<rparr>)"

text \<open>
  \<open>setSelectedImage\<close> with its effect on the viewer: unmounting drops the
  viewer's state, mounting starts it fresh, and a new image for a mounted
  viewer runs its reset effect.  \<open>handleImageSelect\<close>, \<open>handleCloseViewer\<close>
  and \<open>onImageChange\<close> are this function.
\<close>

definition setSelectedImage :: "page \<Rightarrow> ImageData option \<Rightarrow> page" where
  "setSelectedImage p sel =
     (case sel of
        None \<Rightarrow> p\<lparr>selectedImage := None, viewer_state := viewer_init\<rparr>
      | Some img \<Rightarrow>
          (case selectedImage p of
             None \<Rightarrow> p\<lparr>selectedImage := Some img, viewer_state := viewer_init\<rparr>
           | Some old \<Rightarrow>
               p\<lparr>selectedImage := Some img,
                 viewer_state := resetOnImageChange (filename old) (filename img) (viewer_state p)\<rparr>))"

definition handleViewerOut :: "page \<Rightarrow> viewer_out \<Rightarrow> page" where
  "handleViewerOut p out =
     (case out of
        NoCall \<Rightarrow> p
      | CallClose \<Rightarrow> setSelectedImage p None
      | CallImageChange img \<Rightarrow> setSelectedImage p (Some img))"

section \<open>Rendering\<close>

text \<open>
  What \<open>Home\<close> renders: the loading message while \<open>loading\<close> (lines
  58--64); afterwards the header's \<open>{images.length} ROIs available\<close>, the
  three tab buttons with their counts, the gallery on the tab's list, and the
  viewer while an image is selected (lines 66--141).
\<close>

record main_view =
  roi_count :: nat
  all_count :: nat
  he_count :: nat
  pas_count :: nat
  active_tab :: tab
  main_gallery :: gallery_view
  main_viewer :: "viewer_view option"

datatype page_view = LoadingView | MainView main_view

definition renderPage :: "page \<Rightarrow> page_view" where
  "renderPage p =
     (if page_loading p then LoadingView
      else MainView
        \<lparr>roi_count = length (page_images p), all_count = length (page_images p),
         he_count = heCount (page_images p), pas_count = pasCount (page_images p),
         active_tab = activeTab p,
         main_gallery = renderGallery (page_filtered p) (gallery_state p),
         main_viewer = map_option (\<lambda>img. renderViewer img (page_filtered p) (viewer_state p))
           (selectedImage p)\<rparr>)"

text \<open>The count on the button of a tab.\<close>

definition tab_count :: "main_view \<Rightarrow> tab \<Rightarrow> nat" where
  "tab_count m t = (case t of TabAll \<Rightarrow> all_count m | TabHE \<Rightarrow> he_count m | TabPAS \<Rightarrow> pas_count m)"

section \<open>The composed system\<close>

datatype page_event =
    FetchResolved fetch_outcome
  | TabClick tab
  | GalleryEvent gallery_event
  | ViewerEvent viewer_event

text \<open>
  While \<open>loading\<close> the page renders only the loading message; the fetch
  resolves once; the gallery and the tabs exist after it; the viewer and its
  window key listener exist while an image is selected, and its own render
  guards apply.  The viewer and the gallery both get the tab-filtered list.
\<close>

fun page_enabled :: "page \<Rightarrow> page_event \<Rightarrow> bool" where
  "page_enabled p (FetchResolved r) \<longleftrightarrow> page_loading p"
| "page_enabled p (TabClick t) \<longleftrightarrow> \<not> page_loading p"
| "page_enabled p (GalleryEvent e) \<longleftrightarrow> \<not> page_loading p"
| "page_enabled p (ViewerEvent e) \<longleftrightarrow>
     \<not> page_loading p \<and>
     (case selectedImage p of
        None \<Rightarrow> False
      | Some img \<Rightarrow> viewer_enabled img (page_filtered p) (viewer_state p) e)"

fun page_step :: "page \<Rightarrow> page_event \<Rightarrow> page" where
  "page_step p (FetchResolved r) = fetchImagesDone p r"
| "page_step p (TabClick t) = p\<lparr>activeTab := t\<rparr>"
| "page_step p (GalleryEvent e) =
     (case gallery_step (page_filtered p) (gallery_state p) e of
        (g, None) \<Rightarrow> p\<lparr>gallery_state := g\<rparr>
      | (g, Some img) \<Rightarrow> setSelectedImage (p\<lparr>gallery_state := g\<rparr>) (Some img))"
| "page_step p (ViewerEvent e) =
     (case selectedImage p of
        None \<Rightarrow> p
      | Some img \<Rightarrow>
          (case viewer_step img (page_filtered p) (viewer_state p) e of
             (v, out) \<Rightarrow> handleViewerOut (p\<lparr>viewer_state := v\<rparr>) out))"

inductive page_reachable :: "page \<Rightarrow> bool" where
  init: "page_reachable page_init"
| step: "page_reachable p \<Longrightarrow> page_enabled p e \<Longrightarrow> page_reachable (page_step p e)"

text \<open>A run of events, each of which must be enabled when it comes.\<close>

fun page_run :: "page \<Rightarrow> page_event list \<Rightarrow> page option" where
  "page_run p [] = Some p"
| "page_run p (e # es) = (if page_enabled p e then page_run (page_step p e) es else None)"

section \<open>The viewer's modes as the specification describes them\<close>

text \<open>
  The specification (section 4.4) describes the full-screen viewer as a
  machine over five modes: closed, open without mask, open with the mask
  loading, shown, or failed.  \<open>phase_of\<close> reads the mode off the page's
  state; \<open>spec_mode_step\<close> is the specification's transition relation: open,
  close, toggling the mask on (to loading) and off, the load's success or
  failure, and an image change, which restarts a shown mask's load.
  \<open>code_extra_step\<close> lists the transitions the code has beyond it.
\<close>

datatype phase = Closed | OpenNoMask | OpenMaskLoading | OpenMaskShown | OpenMaskError

definition phase_of_overlay :: "overlay \<Rightarrow> phase" where
  "phase_of_overlay ov =
     (case ov of
        NoOverlay \<Rightarrow> OpenNoMask | MaskLoading \<Rightarrow> OpenMaskLoading
      | MaskShown \<Rightarrow> OpenMaskShown | MaskUnavailable \<Rightarrow> OpenMaskError)"

definition phase_of :: "page \<Rightarrow> phase" where
  "phase_of p =
     (case selectedImage p of
        None \<Rightarrow> Closed
      | Some _ \<Rightarrow> phase_of_overlay (overlay_of (viewer_state p)))"

definition mask_on :: "phase \<Rightarrow> bool" where
  "mask_on q \<longleftrightarrow> q \<in> {OpenMaskLoading, OpenMaskShown, OpenMaskError}"

inductive spec_mode_step :: "phase \<Rightarrow> phase \<Rightarrow> bool" where
  open_viewer: "spec_mode_step Closed OpenNoMask"
| close_viewer: "q \<noteq> Closed \<Longrightarrow> spec_mode_step q Closed"
| toggle_on: "spec_mode_step OpenNoMask OpenMaskLoading"
| toggle_off: "mask_on q \<Longrightarrow> spec_mode_step q OpenNoMask"
| mask_loaded: "spec_mode_step OpenMaskLoading OpenMaskShown"
| mask_failed: "spec_mode_step OpenMaskLoading OpenMaskError"
| image_change: "mask_on q \<Longrightarrow> spec_mode_step q OpenMaskLoading"

inductive code_extra_step :: "phase \<Rightarrow> phase \<Rightarrow> bool" where
  reshow_loaded: "code_extra_step OpenNoMask OpenMaskShown"
| reshow_failed: "code_extra_step OpenNoMask OpenMaskError"
| reload_failed: "code_extra_step OpenMaskShown OpenMaskError"

text \<open>A step of the code is allowed when it keeps the mode, is a step of the
  specification, or is one of the extra steps.\<close>

definition mode_allowed :: "phase \<Rightarrow> phase \<Rightarrow> bool" where
  "mode_allowed q q' \<longleftrightarrow> q' = q \<or> spec_mode_step q q' \<or> code_extra_step q q'"

text \<open>
  An abstraction of the page for the refinement: the viewer's mode with what the
  code remembers of the mask's load (\<open>maskLoaded\<close>, \<open>maskError\<close>), the
  abstract events that drive it (spec section 4.4: open, close, toggle, the
  load's outcome, an image change), and the abstract machine \<open>mode_next\<close>.
  The machine keeps the load's outcome across a toggle, as the code does, and
  clears it on an image change, as the reset effect does.
\<close>

datatype mask_load = NotLoaded | Loaded | Failed

datatype mode = MClosed | MOpen bool mask_load

datatype mode_input = EvOpen | EvClose | EvToggle | EvLoaded | EvFailed | EvImageChange | EvNone

fun mode_next :: "mode \<Rightarrow> mode_input \<Rightarrow> mode" where
  "mode_next MClosed EvOpen = MOpen False NotLoaded"
| "mode_next (MOpen b l) EvClose = MClosed"
| "mode_next (MOpen b l) EvToggle = MOpen (\<not> b) l"
| "mode_next (MOpen b l) EvLoaded = MOpen b Loaded"
| "mode_next (MOpen b l) EvFailed = MOpen b Failed"
| "mode_next (MOpen b l) EvImageChange = MOpen b NotLoaded"
| "mode_next m _ = m"

definition mode_of :: "page \<Rightarrow> mode" where
  "mode_of p =
     (case selectedImage p of
        None \<Rightarrow> MClosed
      | Some _ \<Rightarrow>
          MOpen (showMask (viewer_state p))
            (if maskError (viewer_state p) then Failed
             else if maskLoaded (viewer_state p) then Loaded else NotLoaded))"

text \<open>A navigation request is an image change when it names another file.\<close>

definition nav_event :: "ImageData \<Rightarrow> viewer_out \<Rightarrow> mode_input" where
  "nav_event img out =
     (case out of
        CallImageChange x \<Rightarrow> if filename x = filename img then EvNone else EvImageChange
      | _ \<Rightarrow> EvNone)"

fun viewer_mode_event :: "ImageData \<Rightarrow> ImageData list \<Rightarrow> viewer_event \<Rightarrow> mode_input" where
  "viewer_mode_event img L (KeyDown k) =
     (if k = ''Escape'' then EvClose
      else if k = ''ArrowLeft'' then nav_event img (goToPrevious img L)
      else if k = ''ArrowRight'' then nav_event img (goToNext img L)
      else if k = ''m'' \<or> k = ''M'' then EvToggle
      else EvNone)"
| "viewer_mode_event img L ToggleMaskClick = EvToggle"
| "viewer_mode_event img L CloseClick = EvClose"
| "viewer_mode_event img L PrevClick = nav_event img (goToPrevious img L)"
| "viewer_mode_event img L NextClick = nav_event img (goToNext img L)"
| "viewer_mode_event img L MaskLoad = EvLoaded"
| "viewer_mode_event img L MaskLoadError = EvFailed"
| "viewer_mode_event img L _ = EvNone"

fun mode_event :: "page \<Rightarrow> page_event \<Rightarrow> mode_input" where
  "mode_event p (GalleryEvent e) =
     (case snd (gallery_step (page_filtered p) (gallery_state p) e) of
        None \<Rightarrow> EvNone
      | Some x \<Rightarrow>
          (case selectedImage p of
             None \<Rightarrow> EvOpen
           | Some old \<Rightarrow> if filename x = filename old then EvNone else EvImageChange))"
| "mode_event p (ViewerEvent e) =
     (case selectedImage p of
        None \<Rightarrow> EvNone
      | Some img \<Rightarrow> viewer_mode_event img (page_filtered p) e)"
| "mode_event p _ = EvNone"

text \<open>The \<open>M\<close> key as a page event.\<close>

abbreviation toggle_key :: page_event where
  "toggle_key \<equiv> ViewerEvent (KeyDown ''M'')"

text \<open>The right arrow key as a page event.\<close>

abbreviation arrow_right :: page_event where
  "arrow_right \<equiv> ViewerEvent (KeyDown ''ArrowRight'')"

lemmas [ui_simps] = tab_name_def tabFilter_def heCount_def pasCount_def mkImageData_def
  responseJson_def page_init_def page_filtered_def fetchImagesDone_def setSelectedImage_def
  handleViewerOut_def phase_of_overlay_def phase_of_def mask_on_def

section \<open>Counting the tabs\<close>

lemma tab_prefixes_disjoint:
  "\<not> (startsWith s ''HE'' \<and> startsWith s ''PAS'')"
  by (cases s) (auto simp: startsWith_def)

text \<open>The counts on the buttons are the lengths of the tabs' lists.\<close>

lemma tab_filter_lengths:
  "heCount images = length (tabFilter images TabHE) \<and>
   pasCount images = length (tabFilter images TabPAS) \<and> tabFilter images TabAll = images"
  by (simp add: heCount_def pasCount_def tabFilter_def tab_name_def)

text \<open>C13: the counts on the tab buttons are the sizes of the lists the tabs
  show, the \<open>all\<close> tab shows the whole list, and the two stain tabs never count
  an image twice.\<close>

theorem tab_counts:
  "heCount images = length (tabFilter images TabHE) \<and>
   pasCount images = length (tabFilter images TabPAS) \<and>
   tabFilter images TabAll = images \<and>
   heCount images + pasCount images \<le> length images"
proof -
  have "heCount images + pasCount images =
      length (filter (\<lambda>x. startsWith (filename x) ''HE'' \<or> startsWith (filename x) ''PAS'') images)"
    unfolding heCount_def pasCount_def
    by (rule length_filter_disjoint) (simp add: tab_prefixes_disjoint)
  also have "\<dots> \<le> length images" by (rule length_filter_le)
  finally show ?thesis
    using tab_filter_lengths [of images] by simp
qed

lemma tabFilter_subset: "set (tabFilter images t) \<subseteq> set images"
  by (auto simp: tabFilter_def)

section \<open>The page invariant\<close>

text \<open>
  In every reachable state: the viewer's state is the initial one while no
  image is selected; nothing is selected while loading; the opacity is in
  \<open>[0.1, 1]\<close>; the selected image is one of the listed images; and every
  image's \<open>url\<close> is \<open>/jpegs/\<close> followed by its file name.
\<close>

definition page_inv :: "page \<Rightarrow> bool" where
  "page_inv p \<longleftrightarrow>
     (selectedImage p = None \<longrightarrow> viewer_state p = viewer_init) \<and>
     (selectedImage p \<noteq> None \<longrightarrow> \<not> page_loading p) \<and>
     opacity_ok (viewer_state p) \<and>
     (\<forall>img. selectedImage p = Some img \<longrightarrow> img \<in> set (page_images p)) \<and>
     (\<forall>x \<in> set (page_images p). url x = ''/jpegs/'' @ filename x)"

lemma page_inv_init: "page_inv page_init"
  by (simp add: page_inv_def page_init_def)

lemma setSelectedImage_inv:
  assumes "page_inv p" and "\<not> page_loading p"
    and "\<forall>img. sel = Some img \<longrightarrow> img \<in> set (page_images p)"
  shows "page_inv (setSelectedImage p sel)"
  using assms by (auto simp: page_inv_def setSelectedImage_def split: option.splits)

lemma viewer_step_call_member:
  "viewer_step img images v e = (v', CallImageChange x) \<Longrightarrow> x \<in> set images"
  by (cases e) (auto simp: handleKeyDown_def split: if_splits
      dest: goToNext_member goToPrevious_member)

lemma handleViewerOut_inv:
  assumes "page_inv p" and "\<not> page_loading p"
    and "\<forall>x. out = CallImageChange x \<longrightarrow> x \<in> set (page_images p)"
  shows "page_inv (handleViewerOut p out)"
  using assms by (cases out) (auto simp: handleViewerOut_def intro!: setSelectedImage_inv)

lemma fetchImagesDone_inv:
  "page_inv p \<Longrightarrow> page_loading p \<Longrightarrow> page_inv (fetchImagesDone p r)"
  by (auto simp: page_inv_def fetchImagesDone_def mkImageData_def Let_def
      split: fetch_outcome.splits option.splits)

lemma page_step_inv:
  assumes "page_inv p" and "page_enabled p e"
  shows "page_inv (page_step p e)"
proof (cases e)
  case (FetchResolved r)
  with assms show ?thesis by (simp add: fetchImagesDone_inv)
next
  case (TabClick t)
  with assms show ?thesis by (simp add: page_inv_def)
next
  case (GalleryEvent ge)
  obtain g sel where gs: "gallery_step (page_filtered p) (gallery_state p) ge = (g, sel)"
    by fastforce
  have "\<forall>img. sel = Some img \<longrightarrow> img \<in> set (page_filtered p)"
  proof (cases ge)
    case (ItemClick i)
    then show ?thesis
      using gs gallery_click_member [of "page_filtered p" "gallery_state p" i g] by auto
  qed (use gs in auto)
  then have "\<forall>img. sel = Some img \<longrightarrow> img \<in> set (page_images p)"
    using tabFilter_subset by (auto simp: page_filtered_def)
  moreover have "page_inv (p\<lparr>gallery_state := g\<rparr>)"
    using assms(1) by (simp add: page_inv_def)
  ultimately show ?thesis
    using GalleryEvent gs assms
    by (cases sel) (auto intro!: setSelectedImage_inv)
next
  case (ViewerEvent ve)
  from assms ViewerEvent obtain img where sel: "selectedImage p = Some img"
    and nl: "\<not> page_loading p"
    by (auto split: option.splits)
  obtain v out where vs: "viewer_step img (page_filtered p) (viewer_state p) ve = (v, out)"
    by fastforce
  have "opacity_ok v"
    using assms(1) viewer_step_opacity [of "viewer_state p" img "page_filtered p" ve] vs
    by (simp add: page_inv_def)
  then have "page_inv (p\<lparr>viewer_state := v\<rparr>)"
    using assms(1) sel by (simp add: page_inv_def)
  moreover have "\<forall>x. out = CallImageChange x \<longrightarrow> x \<in> set (page_images p)"
    using vs tabFilter_subset by (auto simp: page_filtered_def dest!: viewer_step_call_member)
  ultimately show ?thesis
    using ViewerEvent sel vs nl by (auto intro: handleViewerOut_inv)
qed

lemma page_reachable_inv: "page_reachable p \<Longrightarrow> page_inv p"
  by (induction rule: page_reachable.induct) (auto simp: page_inv_init page_step_inv)

section \<open>The modes: simulation of the specification\<close>

text \<open>The extra steps are not steps of the specification.\<close>

lemma code_extra_not_spec: "code_extra_step q q' \<Longrightarrow> \<not> spec_mode_step q q'"
  by (induction rule: code_extra_step.induct) (auto elim: spec_mode_step.cases simp: mask_on_def)

lemma phase_closed: "selectedImage p = None \<Longrightarrow> phase_of p = Closed"
  by (simp add: phase_of_def)

lemma phase_open: "selectedImage p = Some x \<Longrightarrow> phase_of p = phase_of_overlay (overlay_of (viewer_state p))"
  by (simp add: phase_of_def)

lemma phase_of_overlay_open: "phase_of_overlay ov \<noteq> Closed"
  by (cases ov) (simp_all add: phase_of_overlay_def)

lemma mode_allowed_close: "mode_allowed q Closed"
  by (cases "q = Closed") (auto simp: mode_allowed_def intro: spec_mode_step.close_viewer)

lemma phase_setSelected_None: "phase_of (setSelectedImage p None) = Closed"
  by (simp add: phase_closed setSelectedImage_def)

lemma mode_allowed_select:
  "mode_allowed (phase_of p) (phase_of (setSelectedImage p sel))"
proof (cases sel)
  case None
  then show ?thesis by (simp add: phase_setSelected_None mode_allowed_close)
next
  case (Some img)
  show ?thesis
  proof (cases "selectedImage p")
    case None
    then have "phase_of p = Closed" by (rule phase_closed)
    moreover have "phase_of (setSelectedImage p sel) = OpenNoMask"
      using None Some
      by (simp add: phase_open setSelectedImage_def viewer_init_def overlay_of_def phase_of_overlay_def)
    ultimately show ?thesis
      by (simp add: mode_allowed_def spec_mode_step.open_viewer)
  next
    case (Some old)
    then have "phase_of p = phase_of_overlay (overlay_of (viewer_state p))" by (rule phase_open)
    moreover have "phase_of (setSelectedImage p sel) =
      phase_of_overlay (overlay_of (resetOnImageChange (filename old) (filename img) (viewer_state p)))"
      using Some \<open>sel = Some img\<close> by (simp add: phase_open setSelectedImage_def)
    ultimately show ?thesis
      by (auto simp: mode_allowed_def resetOnImageChange_def overlay_of_def phase_of_overlay_def
          mask_on_def intro: spec_mode_step.image_change)
  qed
qed

lemma mode_allowed_viewer_local:
  assumes "viewer_enabled img L v e"
  shows "mode_allowed (phase_of_overlay (overlay_of v)) (phase_of_overlay (overlay_of (fst (viewer_step img L v e))))"
  using assms
  by (cases e) (auto simp: mode_allowed_def handleKeyDown_def overlay_of_def phase_of_overlay_def mask_on_def
      intro: spec_mode_step.intros code_extra_step.intros)

text \<open>In terms of the specification's five modes: every enabled step keeps the
  mode, is a step of the specification, or is one of the three extra steps.\<close>

lemma page_step_mode_allowed:
  assumes "page_inv p" and "page_enabled p e"
  shows "mode_allowed (phase_of p) (phase_of (page_step p e))"
proof (cases e)
  case (FetchResolved r)
  with assms have "selectedImage p = None"
    by (auto simp: page_inv_def)
  then have "phase_of p = Closed" and "phase_of (page_step p e) = Closed"
    using FetchResolved
    by (simp_all add: phase_closed fetchImagesDone_def Let_def split: fetch_outcome.splits option.splits)
  then show ?thesis by (simp add: mode_allowed_def)
next
  case (TabClick t)
  then show ?thesis by (simp add: mode_allowed_def phase_of_def split: option.split)
next
  case (GalleryEvent ge)
  obtain g sel where gs: "gallery_step (page_filtered p) (gallery_state p) ge = (g, sel)"
    by fastforce
  have same: "phase_of (p\<lparr>gallery_state := g\<rparr>) = phase_of p"
    by (simp add: phase_of_def split: option.split)
  show ?thesis
  proof (cases sel)
    case None
    with GalleryEvent gs same show ?thesis by (simp add: mode_allowed_def)
  next
    case (Some img)
    with GalleryEvent gs same mode_allowed_select [of "p\<lparr>gallery_state := g\<rparr>" sel]
    show ?thesis by simp
  qed
next
  case (ViewerEvent ve)
  from assms ViewerEvent obtain img where sel: "selectedImage p = Some img"
    and en: "viewer_enabled img (page_filtered p) (viewer_state p) ve"
    by (auto split: option.splits)
  obtain v out where vs: "viewer_step img (page_filtered p) (viewer_state p) ve = (v, out)"
    by fastforce
  have p_ph: "phase_of p = phase_of_overlay (overlay_of (viewer_state p))"
    using sel by (rule phase_open)
  have v_ph: "phase_of (p\<lparr>viewer_state := v\<rparr>) = phase_of_overlay (overlay_of v)"
    using sel by (simp add: phase_open)
  have local: "mode_allowed (phase_of p) (phase_of (p\<lparr>viewer_state := v\<rparr>))"
    using mode_allowed_viewer_local [OF en] vs p_ph v_ph by simp
  show ?thesis
  proof (cases out)
    case NoCall
    with ViewerEvent sel vs local show ?thesis
      by (simp add: handleViewerOut_def)
  next
    case CallClose
    with ViewerEvent sel vs show ?thesis
      by (simp add: handleViewerOut_def phase_setSelected_None mode_allowed_close)
  next
    case (CallImageChange x)
    then have "v = viewer_state p"
      using vs by (cases ve) (auto simp: handleKeyDown_def split: if_splits)
    with ViewerEvent sel vs CallImageChange mode_allowed_select [of p "Some x"] show ?thesis
      by (simp add: handleViewerOut_def)
  qed
qed

section \<open>The modes: refinement of the abstract machine\<close>

text \<open>How each part of a step moves the abstract mode.\<close>

lemma mode_next_EvNone [simp]: "mode_next m EvNone = m"
  by (cases m) simp_all

lemma mode_of_gallery [simp]: "mode_of (p\<lparr>gallery_state := g\<rparr>) = mode_of p"
  by (simp add: mode_of_def split: option.split)

lemma mode_of_close: "mode_of (setSelectedImage p None) = mode_next (mode_of p) EvClose"
  by (cases "mode_of p") (simp_all add: mode_of_def setSelectedImage_def split: option.splits)

lemma mode_of_select:
  "mode_of (setSelectedImage p (Some x)) =
     mode_next (mode_of p)
       (case selectedImage p of
          None \<Rightarrow> EvOpen
        | Some old \<Rightarrow> if filename x = filename old then EvNone else EvImageChange)"
  by (auto simp: mode_of_def setSelectedImage_def resetOnImageChange_def viewer_init_def
      split: option.split)

lemma mode_of_viewer_out:
  assumes "selectedImage p = Some img"
    and "out \<noteq> CallClose"
  shows "mode_of (handleViewerOut p out) = mode_next (mode_of p) (nav_event img out)"
  using assms mode_of_select [of p]
  by (auto simp: handleViewerOut_def nav_event_def split: viewer_out.split)

lemma mode_of_fetch: "mode_of (fetchImagesDone p r) = mode_of p"
  by (simp add: mode_of_def fetchImagesDone_def Let_def split: fetch_outcome.split option.split)

lemma mode_of_tab: "mode_of (p\<lparr>activeTab := t\<rparr>) = mode_of p"
  by (simp add: mode_of_def split: option.split)

lemma goTo_not_close [simp]:
  "goToNext img L \<noteq> CallClose" "goToPrevious img L \<noteq> CallClose"
  by (simp_all add: goToNext_def goToPrevious_def Let_def)

lemma mode_of_viewer_step:
  assumes sel: "selectedImage p = Some img"
    and en: "viewer_enabled img (page_filtered p) (viewer_state p) ve"
  shows "mode_of (page_step p (ViewerEvent ve)) =
    mode_next (mode_of p) (viewer_mode_event img (page_filtered p) ve)"
proof -
  let ?L = "page_filtered p" and ?v = "viewer_state p"
  have step: "page_step p (ViewerEvent ve) =
      handleViewerOut (p\<lparr>viewer_state := fst (viewer_step img ?L ?v ve)\<rparr>) (snd (viewer_step img ?L ?v ve))"
    using sel by (simp split: prod.split)
  have close: "mode_of (handleViewerOut q CallClose) = mode_next (mode_of p) EvClose" for q
    using sel by (simp add: handleViewerOut_def mode_of_def setSelectedImage_def)
  have nav: "mode_of (handleViewerOut (p\<lparr>viewer_state := ?v\<rparr>) out) = mode_next (mode_of p) (nav_event img out)"
    if "out \<noteq> CallClose" for out
    using mode_of_viewer_out [OF sel that] by simp
  have local: "mode_of (handleViewerOut (p\<lparr>viewer_state := v\<rparr>) NoCall) =
      MOpen (showMask v) (if maskError v then Failed else if maskLoaded v then Loaded else NotLoaded)" for v
    using sel by (simp add: handleViewerOut_def mode_of_def)
  have mp: "mode_of p = MOpen (showMask ?v) (if maskError ?v then Failed else if maskLoaded ?v then Loaded else NotLoaded)"
    using sel by (simp add: mode_of_def)
  show ?thesis
  proof (cases ve)
    case (KeyDown k)
    show ?thesis
    proof -
      consider "k = ''Escape''" | "k = ''ArrowLeft''" | "k = ''ArrowRight''"
        | "k \<noteq> ''Escape''" "k \<noteq> ''ArrowLeft''" "k \<noteq> ''ArrowRight''" by blast
      then show ?thesis
      proof cases
        case 1 with KeyDown step close show ?thesis by (simp add: handleKeyDown_def)
      next
        case 2 with KeyDown step nav show ?thesis by (simp add: handleKeyDown_def)
      next
        case 3 with KeyDown step nav show ?thesis by (simp add: handleKeyDown_def)
      next
        case 4 with KeyDown step local mp show ?thesis by (simp add: handleKeyDown_def handleViewerOut_def)
      qed
    qed
  next
    case ToggleMaskClick with step local mp show ?thesis by simp
  next
    case CloseClick with step close show ?thesis by simp
  next
    case PrevClick with step nav show ?thesis by simp
  next
    case NextClick with step nav show ?thesis by simp
  next
    case (OpacityInput n) with step local mp show ?thesis by simp
  next
    case ImageLoad with step local mp show ?thesis by simp
  next
    case MaskLoad with step local mp en show ?thesis by simp
  next
    case MaskLoadError with step local mp show ?thesis by simp
  qed
qed

text \<open>C11: the page refines the abstract mode machine: for every enabled event,
  the mode of the page after the step is \<open>mode_next\<close> applied to the mode before
  and the event's abstract meaning.  Opening starts without mask and unloaded,
  closing drops the state, the toggle keeps the load's outcome, the load's
  callbacks record it, and an image change clears it.\<close>

theorem page_step_refines_modes:
  assumes "page_enabled p e"
  shows "mode_of (page_step p e) = mode_next (mode_of p) (mode_event p e)"
proof (cases e)
  case (FetchResolved r)
  then show ?thesis by (simp add: mode_of_fetch)
next
  case (TabClick t)
  then show ?thesis by (simp add: mode_of_tab)
next
  case (GalleryEvent ge)
  obtain g sel where gs: "gallery_step (page_filtered p) (gallery_state p) ge = (g, sel)"
    by fastforce
  with GalleryEvent show ?thesis
    by (cases sel)
      (auto simp: mode_of_def setSelectedImage_def resetOnImageChange_def viewer_init_def
        split: option.split)
next
  case (ViewerEvent ve)
  from assms ViewerEvent obtain img where sel: "selectedImage p = Some img"
    and en: "viewer_enabled img (page_filtered p) (viewer_state p) ve"
    by (auto split: option.splits)
  then show ?thesis
    using ViewerEvent mode_of_viewer_step [OF sel en] by simp
qed

section \<open>Runs and key sequences\<close>

lemma page_run_reachable:
  "page_reachable p \<Longrightarrow> page_run p es = Some q \<Longrightarrow> page_reachable q"
proof (induction es arbitrary: p)
  case Nil
  then show ?case by simp
next
  case (Cons e es)
  then show ?case by (auto split: if_splits intro: page_reachable.step)
qed

lemma arrow_right_step:
  assumes "page_inv p" and "selectedImage p = Some (page_filtered p ! k)"
    and "k < length (page_filtered p)" and "distinct (map filename (page_filtered p))"
  shows "page_enabled p arrow_right \<and> page_filtered (page_step p arrow_right) = page_filtered p \<and>
    selectedImage (page_step p arrow_right) = Some (page_filtered p ! min (Suc k) (length (page_filtered p) - 1))"
proof -
  have nl: "\<not> page_loading p" using assms(1,2) by (auto simp: page_inv_def)
  have nxt: "goToNext (page_filtered p ! k) (page_filtered p) =
      (if Suc k < length (page_filtered p) then CallImageChange (page_filtered p ! Suc k) else NoCall)"
    using assms(4,3) by (rule goToNext_nth)
  have last: "\<not> Suc k < length (page_filtered p) \<Longrightarrow> k = length (page_filtered p) - 1"
    using assms(3) by arith
  show ?thesis
    using assms(2,3) nl nxt last
    by (auto simp: handleKeyDown_def handleViewerOut_def setSelectedImage_def page_filtered_def
        min_def split: option.splits)
qed

text \<open>C3: from the \<open>k\<close>-th image of a list with distinct names, \<open>n\<close> presses
  of the right arrow are all accepted and land on image \<open>min (k + n) (length - 1)\<close>:
  the position moves one step per press and stops at the end.\<close>

theorem arrow_right_presses:
  assumes "page_reachable p" and "selectedImage p = Some (page_filtered p ! k)"
    and "k < length (page_filtered p)" and "distinct (map filename (page_filtered p))"
  shows "\<exists>q. page_run p (replicate n arrow_right) = Some q \<and> page_filtered q = page_filtered p \<and>
    selectedImage q = Some (page_filtered p ! min (k + n) (length (page_filtered p) - 1))"
  using assms
proof (induction n arbitrary: p k)
  case 0
  then show ?case by simp
next
  case (Suc n)
  let ?L = "page_filtered p"
  let ?p' = "page_step p arrow_right"
  let ?k' = "min (Suc k) (length ?L - 1)"
  have inv: "page_inv p" using Suc.prems(1) by (rule page_reachable_inv)
  from arrow_right_step [OF inv Suc.prems(2-4)]
  have en: "page_enabled p arrow_right" and L': "page_filtered ?p' = ?L"
    and sel': "selectedImage ?p' = Some (?L ! ?k')" by auto
  have r': "page_reachable ?p'" using Suc.prems(1) en by (rule page_reachable.step)
  have "?k' < length ?L" using Suc.prems(3) by simp
  then obtain q where q: "page_run ?p' (replicate n arrow_right) = Some q"
    and qL: "page_filtered q = ?L" and qs: "selectedImage q = Some (?L ! min (?k' + n) (length ?L - 1))"
    using Suc.IH [OF r'] sel' L' Suc.prems(4) by fastforce
  have "min (?k' + n) (length ?L - 1) = min (k + Suc n) (length ?L - 1)" by auto
  with q qL qs en show ?case by auto
qed


lemma page_reachable_run:
  "page_run page_init es = Some q \<Longrightarrow> page_reachable q"
  by (rule page_run_reachable [OF page_reachable.init])

text \<open>C10: every reachable state of the page satisfies the page invariant
  (viewer state dropped when closed, no selection while loading, opacity in range,
  the selection one of the listed images, every url derived from its file name).\<close>

theorem page_invariant: "page_reachable p \<Longrightarrow> page_inv p"
  by (rule page_reachable_inv)

lemma page_invariant_witness:
  "page_reachable (the (page_run page_init [FetchResolved (FetchJson (Some [''HE_1.jpg''])), GalleryEvent (ItemClick 0)])) \<and>
   page_inv (the (page_run page_init [FetchResolved (FetchJson (Some [''HE_1.jpg''])), GalleryEvent (ItemClick 0)]))"
proof -
  let ?es = "[FetchResolved (FetchJson (Some [''HE_1.jpg''])), GalleryEvent (ItemClick 0)]"
  have "page_run page_init ?es = Some (the (page_run page_init ?es))"
    by (simp add: ui_simps js_simps)
  then have r: "page_reachable (the (page_run page_init ?es))"
    by (rule page_reachable_run)
  then show ?thesis using page_invariant [OF r] by simp
qed

lemma arrow_right_presses_witness:
  "\<exists>q. page_run (the (page_run page_init [FetchResolved (FetchJson (Some [''HE_1.jpg'', ''HE_2.jpg'', ''PAS_3.jpg''])), GalleryEvent (ItemClick 0)]))
          (replicate 5 arrow_right) = Some q \<and> selectedImage q = Some (mkImageData ''PAS_3.jpg'')"
proof -
  let ?es = "[FetchResolved (FetchJson (Some [''HE_1.jpg'', ''HE_2.jpg'', ''PAS_3.jpg''])), GalleryEvent (ItemClick 0)]"
  let ?p = "the (page_run page_init ?es)"
  have run: "page_run page_init ?es = Some ?p"
    by (simp add: ui_simps js_simps)
  have r: "page_reachable ?p" using run by (rule page_reachable_run)
  have L: "page_filtered ?p = map mkImageData [''HE_1.jpg'', ''HE_2.jpg'', ''PAS_3.jpg'']"
    by (simp add: ui_simps js_simps)
  have s: "selectedImage ?p = Some (page_filtered ?p ! 0)"
    by (simp add: ui_simps js_simps)
  have d: "distinct (map filename (page_filtered ?p))"
    unfolding L by (simp add: mkImageData_def)
  have k: "0 < length (page_filtered ?p)"
    unfolding L by simp
  obtain q where q1: "page_run ?p (replicate 5 arrow_right) = Some q"
    and q2: "selectedImage q = Some (page_filtered ?p ! min (0 + 5) (length (page_filtered ?p) - 1))"
    using arrow_right_presses [OF r s k d, of 5] by blast
  have "page_filtered ?p ! min (0 + 5) (length (page_filtered ?p) - 1) = mkImageData ''PAS_3.jpg''"
    unfolding L by simp
  with q1 q2 show ?thesis by auto
qed

text \<open>C14: switching to a tab whose list does not contain the open image keeps
  that image selected: the header reads \<open>0 of n\<close> and the right arrow jumps to
  the first image of the new tab (or does nothing when the tab is empty).\<close>

theorem tab_switch_leaves_list:
  assumes "page_reachable p" and "selectedImage p = Some img"
    and "\<forall>x \<in> set (tabFilter (page_images p) t). filename x \<noteq> filename img"
  shows "page_enabled p (TabClick t) \<and> selectedImage (page_step p (TabClick t)) = Some img \<and>
    position (renderViewer img (page_filtered (page_step p (TabClick t))) (viewer_state (page_step p (TabClick t))))
      = (0, length (tabFilter (page_images p) t)) \<and>
    page_enabled (page_step p (TabClick t)) arrow_right \<and>
    selectedImage (page_step (page_step p (TabClick t)) arrow_right) =
      (if tabFilter (page_images p) t = [] then Some img else Some (tabFilter (page_images p) t ! 0))"
proof -
  have nl: "\<not> page_loading p"
    using page_reachable_inv [OF assms(1)] assms(2) by (simp add: page_inv_def)
  have ci: "currentIndex img (tabFilter (page_images p) t) = -1"
    using assms(3) by (rule currentIndex_absent)
  show ?thesis
    using assms(2) nl ci
    by (simp add: renderViewer_def Let_def page_filtered_def handleKeyDown_def goToNext_def
        handleViewerOut_def setSelectedImage_def resetOnImageChange_def)
qed

text \<open>C15: the viewer does not depend on the gallery's state: with any search
  term and view mode, a viewer event is enabled alike and has the same effect,
  so the arrows navigate the tab's list, also through images the search hides.\<close>

theorem navigation_ignores_search:
  "page_enabled (p\<lparr>gallery_state := g\<rparr>) (ViewerEvent e) = page_enabled p (ViewerEvent e) \<and>
   page_step (p\<lparr>gallery_state := g\<rparr>) (ViewerEvent e) = (page_step p (ViewerEvent e))\<lparr>gallery_state := g\<rparr>"
  by (auto simp: page_filtered_def handleViewerOut_def setSelectedImage_def
      split: option.split prod.split viewer_out.split)

text \<open>C12: a failed mask stays failed: in every reachable state showing
  \<open>Mask Not Available\<close>, \<open>M\<close> hides the mask and a second \<open>M\<close> shows
  \<open>Mask Not Available\<close> again at once, with no mask request (no mask
  \<open><img>\<close> is rendered).  This passes from the no-mask mode straight to the
  error mode, which the specification's machine does not allow.\<close>

theorem mask_failure_sticky:
  assumes "page_reachable p" and "selectedImage p = Some img" and "phase_of p = OpenMaskError"
  shows "page_enabled p toggle_key \<and> phase_of (page_step p toggle_key) = OpenNoMask \<and>
    page_enabled (page_step p toggle_key) toggle_key \<and>
    phase_of (page_step (page_step p toggle_key) toggle_key) = OpenMaskError \<and>
    mask_src (renderViewer img (page_filtered p) (viewer_state (page_step (page_step p toggle_key) toggle_key))) = None"
proof -
  have nl: "\<not> page_loading p"
    using page_reachable_inv [OF assms(1)] assms(2) by (simp add: page_inv_def)
  have m: "showMask (viewer_state p)" and er: "maskError (viewer_state p)"
    using assms(2,3)
    by (auto simp: phase_of_def overlay_of_def phase_of_overlay_def split: if_splits)
  show ?thesis
    using assms(2) nl m er
    by (simp add: handleKeyDown_def handleViewerOut_def phase_of_def overlay_of_def
        phase_of_overlay_def renderViewer_def Let_def)
qed

text \<open>C16: Escape closes an open viewer and drops its state: the selection is
  cleared and the mask toggle and opacity start afresh when a viewer opens again.\<close>

theorem escape_closes_viewer:
  assumes "selectedImage p = Some img" and "\<not> page_loading p"
  shows "page_enabled p (ViewerEvent (KeyDown ''Escape'')) \<and>
    page_step p (ViewerEvent (KeyDown ''Escape'')) = p\<lparr>selectedImage := None, viewer_state := viewer_init\<rparr>"
  using assms by (simp add: handleKeyDown_def handleViewerOut_def setSelectedImage_def)

text \<open>C17: when a viewer event changes the image to one with another name, the
  three load flags are cleared while the mask toggle and the opacity are kept.\<close>

theorem image_change_resets_flags:
  assumes "selectedImage p = Some img"
    and "selectedImage (page_step p (ViewerEvent e)) = Some x" and "filename x \<noteq> filename img"
  shows "\<not> imageLoaded (viewer_state (page_step p (ViewerEvent e))) \<and>
    \<not> maskLoaded (viewer_state (page_step p (ViewerEvent e))) \<and>
    \<not> maskError (viewer_state (page_step p (ViewerEvent e))) \<and>
    showMask (viewer_state (page_step p (ViewerEvent e))) = showMask (viewer_state p) \<and>
    maskOpacity (viewer_state (page_step p (ViewerEvent e))) = maskOpacity (viewer_state p)"
proof -
  obtain v out where vs: "viewer_step img (page_filtered p) (viewer_state p) e = (v, out)"
    by fastforce
  show ?thesis
  proof (cases out)
    case NoCall
    with assms vs show ?thesis by (simp add: handleViewerOut_def)
  next
    case CallClose
    with assms vs show ?thesis by (simp add: handleViewerOut_def setSelectedImage_def)
  next
    case (CallImageChange y)
    then have "v = viewer_state p"
      using vs by (cases e) (auto simp: handleKeyDown_def split: if_splits)
    with assms vs CallImageChange show ?thesis
      by (simp add: handleViewerOut_def setSelectedImage_def resetOnImageChange_def)
  qed
qed

text \<open>C18: in every reachable state with the mask shown, the opacity the slider
  displays is a percentage between 10 and 100.\<close>

theorem opacity_percent_bounds:
  assumes "page_reachable p" and "selectedImage p = Some img" and "showMask (viewer_state p)"
  shows "\<exists>n. opacity_percent (renderViewer img (page_filtered p) (viewer_state p)) = Some n \<and>
    10 \<le> n \<and> n \<le> 100"
proof -
  have "opacity_ok (viewer_state p)"
    using page_reachable_inv [OF assms(1)] by (simp add: page_inv_def)
  with assms(3) show ?thesis
    by (simp add: renderViewer_def Let_def opacity_ok_def)
qed


text \<open>C32: once the listing has arrived the page shows its main view, in which
  the gallery's \<open>Showing n of m images\<close> has \<open>m\<close> equal to the count on the
  active tab's button and \<open>n \<le> m\<close>, and the viewer is rendered exactly while an
  image is selected.\<close>

theorem render_counts_agree:
  assumes "\<not> page_loading p"
  shows "\<exists>m. renderPage p = MainView m \<and>
    total (main_gallery m) = tab_count m (active_tab m) \<and>
    shown (main_gallery m) \<le> total (main_gallery m) \<and>
    (main_viewer m \<noteq> None \<longleftrightarrow> selectedImage p \<noteq> None)"
  using assms tab_filter_lengths [of "page_images p"]
  by (auto simp: renderPage_def tab_count_def page_filtered_def renderGallery_def Let_def
      filteredImages_def split: tab.split)

text \<open>C33: the opacity slider is live whenever the mask is switched on, in the
  loading and the \<open>Mask Not Available\<close> modes too: its input is enabled, sets the
  opacity, and keeps the mode.\<close>

theorem opacity_live_while_mask_on:
  assumes "page_reachable p" and "selectedImage p = Some img" and "showMask (viewer_state p)"
  shows "page_enabled p (ViewerEvent (OpacityInput n)) \<and>
    maskOpacity (viewer_state (page_step p (ViewerEvent (OpacityInput n)))) = rangeInputValue n \<and>
    phase_of (page_step p (ViewerEvent (OpacityInput n))) = phase_of p"
proof -
  have nl: "\<not> page_loading p"
    using page_reachable_inv [OF assms(1)] assms(2) by (simp add: page_inv_def)
  then show ?thesis
    using assms(2,3) by (simp add: handleViewerOut_def phase_of_def overlay_of_def)
qed

section \<open>Witnesses\<close>

text \<open>The page after the listing \<open>HE_1.jpg, HE_2.jpg\<close> arrived and the first
  thumbnail was clicked; the same with the mask shown and the slider pulled to 0.\<close>

lemma witness_run_open:
  "page_run page_init [FetchResolved (FetchJson (Some [''HE_1.jpg'', ''HE_2.jpg''])), GalleryEvent (ItemClick 0)] =
   Some (the (page_run page_init [FetchResolved (FetchJson (Some [''HE_1.jpg'', ''HE_2.jpg''])), GalleryEvent (ItemClick 0)]))"
  by (simp add: ui_simps js_simps)

lemma escape_closes_viewer_witness:
  "selectedImage (page_step (the (page_run page_init [FetchResolved (FetchJson (Some [''HE_1.jpg'', ''HE_2.jpg''])), GalleryEvent (ItemClick 0)]))
      (ViewerEvent (KeyDown ''Escape''))) = None"
  using escape_closes_viewer
    [of "the (page_run page_init [FetchResolved (FetchJson (Some [''HE_1.jpg'', ''HE_2.jpg''])), GalleryEvent (ItemClick 0)])"
        "mkImageData ''HE_1.jpg''"]
  by (simp add: ui_simps js_simps)

lemma image_change_resets_flags_witness:
  "selectedImage (page_step (the (page_run page_init [FetchResolved (FetchJson (Some [''HE_1.jpg'', ''HE_2.jpg''])), GalleryEvent (ItemClick 0)])) arrow_right)
     = Some (mkImageData ''HE_2.jpg'') \<and>
   \<not> maskLoaded (viewer_state (page_step (the (page_run page_init [FetchResolved (FetchJson (Some [''HE_1.jpg'', ''HE_2.jpg''])), GalleryEvent (ItemClick 0)])) arrow_right))"
  using image_change_resets_flags
    [of "the (page_run page_init [FetchResolved (FetchJson (Some [''HE_1.jpg'', ''HE_2.jpg''])), GalleryEvent (ItemClick 0)])"
        "mkImageData ''HE_1.jpg''" "KeyDown ''ArrowRight''" "mkImageData ''HE_2.jpg''"]
  by (simp add: ui_simps js_simps Let_def)

lemma opacity_percent_bounds_witness:
  "\<exists>n. opacity_percent (renderViewer (mkImageData ''HE_1.jpg'')
      (page_filtered (the (page_run page_init [FetchResolved (FetchJson (Some [''HE_1.jpg''])), GalleryEvent (ItemClick 0),
         ViewerEvent (KeyDown ''M''), ViewerEvent (OpacityInput 0)])))
      (viewer_state (the (page_run page_init [FetchResolved (FetchJson (Some [''HE_1.jpg''])), GalleryEvent (ItemClick 0),
         ViewerEvent (KeyDown ''M''), ViewerEvent (OpacityInput 0)])))) = Some n \<and> 10 \<le> n \<and> n \<le> 100"
proof -
  let ?es = "[FetchResolved (FetchJson (Some [''HE_1.jpg''])), GalleryEvent (ItemClick 0),
         ViewerEvent (KeyDown ''M''), ViewerEvent (OpacityInput 0)]"
  have run: "page_run page_init ?es = Some (the (page_run page_init ?es))"
    by (simp add: ui_simps js_simps)
  have r: "page_reachable (the (page_run page_init ?es))" using run by (rule page_reachable_run)
  have s: "selectedImage (the (page_run page_init ?es)) = Some (mkImageData ''HE_1.jpg'')"
    by (simp add: ui_simps js_simps)
  have m: "showMask (viewer_state (the (page_run page_init ?es)))"
    by (simp add: ui_simps js_simps)
  show ?thesis using opacity_percent_bounds [OF r s m] .
qed

lemma render_counts_agree_witness:
  "\<exists>m. renderPage (the (page_run page_init [FetchResolved (FetchJson (Some [''HE_1.jpg'', ''HE_2.jpg''])), GalleryEvent (ItemClick 0)])) = MainView m \<and>
     total (main_gallery m) = tab_count m (active_tab m) \<and> tab_count m (active_tab m) = 2"
proof -
  let ?p = "the (page_run page_init [FetchResolved (FetchJson (Some [''HE_1.jpg'', ''HE_2.jpg''])), GalleryEvent (ItemClick 0)])"
  have "\<not> page_loading ?p" by (simp add: ui_simps js_simps)
  from render_counts_agree [OF this] obtain m where "renderPage ?p = MainView m"
    and "total (main_gallery m) = tab_count m (active_tab m)" by blast
  moreover have "renderPage ?p = MainView m \<Longrightarrow> tab_count m (active_tab m) = 2"
    by (simp add: ui_simps js_simps renderPage_def) (auto simp: tab_count_def)
  ultimately show ?thesis by blast
qed


text \<open>The page with the mask of \<open>HE_1.jpg\<close> loaded (a list of two images), and
  the page with the mask of \<open>HE_1.jpg\<close> failed (a list of one).\<close>

lemma page_step_refines_modes_witness:
  "mode_of (page_step (the (page_run page_init [FetchResolved (FetchJson (Some [''HE_1.jpg'', ''HE_2.jpg''])),
      GalleryEvent (ItemClick 0), toggle_key, ViewerEvent MaskLoad])) arrow_right) = MOpen True NotLoaded"
proof -
  let ?p = "the (page_run page_init [FetchResolved (FetchJson (Some [''HE_1.jpg'', ''HE_2.jpg''])),
      GalleryEvent (ItemClick 0), toggle_key, ViewerEvent MaskLoad])"
  have en: "page_enabled ?p arrow_right" by (simp add: ui_simps js_simps)
  have "mode_of ?p = MOpen True Loaded" by (simp add: ui_simps js_simps mode_of_def)
  moreover have "mode_event ?p arrow_right = EvImageChange"
    by (simp add: ui_simps js_simps nav_event_def)
  ultimately show ?thesis using page_step_refines_modes [OF en] by simp
qed

lemma mask_failure_sticky_witness:
  "phase_of (page_step (page_step (the (page_run page_init [FetchResolved (FetchJson (Some [''HE_1.jpg''])),
      GalleryEvent (ItemClick 0), toggle_key, ViewerEvent MaskLoadError])) toggle_key) toggle_key) = OpenMaskError"
proof -
  let ?es = "[FetchResolved (FetchJson (Some [''HE_1.jpg''])), GalleryEvent (ItemClick 0), toggle_key,
      ViewerEvent MaskLoadError]"
  have run: "page_run page_init ?es = Some (the (page_run page_init ?es))"
    by (simp add: ui_simps js_simps)
  have r: "page_reachable (the (page_run page_init ?es))" using run by (rule page_reachable_run)
  have s: "selectedImage (the (page_run page_init ?es)) = Some (mkImageData ''HE_1.jpg'')"
    by (simp add: ui_simps js_simps)
  have f: "phase_of (the (page_run page_init ?es)) = OpenMaskError"
    by (simp add: ui_simps js_simps overlay_of_def)
  show ?thesis using mask_failure_sticky [OF r s f] by simp
qed

lemma tab_switch_leaves_list_witness:
  "selectedImage (page_step (page_step (the (page_run page_init [FetchResolved (FetchJson (Some [''HE_1.jpg'', ''HE_2.jpg'', ''PAS_3.jpg''])),
      GalleryEvent (ItemClick 1)])) (TabClick TabPAS)) arrow_right) = Some (mkImageData ''PAS_3.jpg'')"
proof -
  define es where "es = [FetchResolved (FetchJson (Some [''HE_1.jpg'', ''HE_2.jpg'', ''PAS_3.jpg''])), GalleryEvent (ItemClick 1)]"
  define q where "q = the (page_run page_init es)"
  have run: "page_run page_init es = Some q"
    by (simp add: q_def es_def ui_simps js_simps)
  have r: "page_reachable q" using run by (rule page_reachable_run)
  have s: "selectedImage q = Some (mkImageData ''HE_2.jpg'')"
    by (simp add: q_def es_def ui_simps js_simps)
  have L: "tabFilter (page_images q) TabPAS = [mkImageData ''PAS_3.jpg'']"
    by (simp add: q_def es_def ui_simps js_simps)
  have a: "\<forall>x \<in> set (tabFilter (page_images q) TabPAS). filename x \<noteq> filename (mkImageData ''HE_2.jpg'')"
    unfolding L by (simp add: mkImageData_def)
  have "selectedImage (page_step (page_step q (TabClick TabPAS)) arrow_right) =
      (if tabFilter (page_images q) TabPAS = [] then Some (mkImageData ''HE_2.jpg'')
       else Some (tabFilter (page_images q) TabPAS ! 0))"
    using tab_switch_leaves_list [OF r s a] by blast
  then have "selectedImage (page_step (page_step q (TabClick TabPAS)) arrow_right) = Some (mkImageData ''PAS_3.jpg'')"
    by (simp only: L list.distinct(2) if_False nth_Cons_0)
  then show ?thesis by (simp only: q_def es_def)
qed

lemma opacity_live_while_mask_on_witness:
  "maskOpacity (viewer_state (page_step (the (page_run page_init [FetchResolved (FetchJson (Some [''HE_1.jpg''])),
      GalleryEvent (ItemClick 0), toggle_key, ViewerEvent MaskLoadError])) (ViewerEvent (OpacityInput 3)))) = 3"
proof -
  let ?es = "[FetchResolved (FetchJson (Some [''HE_1.jpg''])), GalleryEvent (ItemClick 0), toggle_key,
      ViewerEvent MaskLoadError]"
  have run: "page_run page_init ?es = Some (the (page_run page_init ?es))"
    by (simp add: ui_simps js_simps)
  have r: "page_reachable (the (page_run page_init ?es))" using run by (rule page_reachable_run)
  have s: "selectedImage (the (page_run page_init ?es)) = Some (mkImageData ''HE_1.jpg'')"
    by (simp add: ui_simps js_simps)
  have m: "showMask (viewer_state (the (page_run page_init ?es)))"
    by (simp add: ui_simps js_simps)
  show ?thesis using opacity_live_while_mask_on [OF r s m, of 3] by (simp add: rangeInputValue_def)
qed

end
