(* ===== verification/Spec2Isabelle.thy ===== *)
theory Spec2Isabelle
  imports Page
begin

text \<open>
  \<^bold>\<open>A verification development of glomeruli-viewer.\<close>

  The program (\<open>src/\<close>) is a Next.js application that shows a fixed set of
  microscopy images and their segmentation masks.  Its parts and how they
  interact:
  \<^item> the dataset lister \<open>GET /api/images\<close> (\<open>src/app/api/images/route.ts\<close>)
    lists the \<open>.jpg\<close> entries of \<open>public/jpegs\<close>;
  \<^item> the image server \<open>GET /api/images/[filename]\<close>
    (\<open>src/app/api/images/[filename]/route.ts\<close>) serves a JPEG from
    \<open>../dataset_web_jpeg\<close>;
  \<^item> the mask server \<open>GET /api/masks/[filename]\<close>
    (\<open>src/app/api/masks/[filename]/route.ts\<close>) derives \<open>X_mask.png\<close> from
    \<open>X.jpg\<close> and serves it from \<open>public/masks\<close>; its resizing variant is
    commented out;
  \<^item> the rewrites of \<open>src/next.config.js\<close> send \<open>/images/*\<close> and \<open>/masks/*\<close>
    to these routes;
  \<^item> the page \<open>Home\<close> (\<open>src/app/page.tsx\<close>) fetches the listing once, keeps the
    stain tab and the selected image, and renders the gallery and, while an
    image is selected, the viewer;
  \<^item> the gallery (\<open>src/app/components/ImageViewer.tsx\<close>) filters by a
    case-insensitive search, labels each image, and reports clicks;
  \<^item> the full-screen viewer (\<open>src/app/components/FullPageViewer.tsx\<close>)
    navigates with the arrows, closes on Escape, toggles the mask overlay and
    its opacity, and tracks the loading of the image and the mask.

  \<^bold>\<open>Theories.\<close>
  \<^item> \<open>Prelude\<close>: rule collections (\<open>js_simps\<close>, \<open>fs_simps\<close>, \<open>route_simps\<close>,
    \<open>ui_simps\<close>), the types \<open>bytes\<close> and \<open>path\<close>, generic list facts.
  \<^item> \<open>JsPrims\<close>: the JavaScript built-ins the code calls (\<open>startsWith\<close>,
    \<open>endsWith\<close>, \<open>includes\<close>, first-occurrence \<open>replace\<close>, \<open>split\<close>,
    \<open>toLowerCase\<close> on code units below 256, \<open>findIndex\<close>, indexing), with
    their equivalence to the list library (\<open>includes_sublist\<close>), the
    split/join round trip (\<open>js_join_split\<close>, \<open>js_split_join\<close>) and the
    first-occurrence law of \<open>replace\<close> (\<open>js_replace_first\<close>).
  \<^item> \<open>NodeFs\<close>: the read-only file system as an association list from paths
    to files and directories, \<open>path.join\<close> with its normalisation of \<open>.\<close>,
    \<open>..\<close> and trailing separators, and \<open>readdirSync\<close>, \<open>existsSync\<close>,
    \<open>readFileSync\<close>, \<open>readFile\<close> returning \<open>fs_error + _\<close>.
  \<^item> \<open>ApiRoutes\<close>: \<open>GET_images\<close>, \<open>GET_image\<close>, \<open>GET_mask\<close> (with
    \<open>mask_filename\<close>), the rewrites \<open>nextConfig_rewrites\<close>, and the server
    \<open>serve\<close>: public files first, then rewrites, then the app routes.
    Every \<open>try\<close>/\<open>catch\<close> and early return is a branch of the response.
  \<^item> \<open>Gallery\<close>: \<open>ImageData\<close>, \<open>filteredImages\<close>, \<open>getImageLabel\<close>, the
    component state \<open>gallery\<close>, \<open>renderGallery\<close> and \<open>gallery_step\<close>.
  \<^item> \<open>Viewer\<close>: the state record \<open>viewer\<close> (the five \<open>useState\<close> hooks, the
    opacity in tenths), \<open>currentIndex\<close>, \<open>goToPrevious\<close>, \<open>goToNext\<close>,
    \<open>handleKeyDown\<close>, the reset effect \<open>resetOnImageChange\<close>, the slider's
    \<open>rangeInputValue\<close>, \<open>viewer_step\<close>, the render guards
    \<open>viewer_enabled\<close>, and \<open>renderViewer\<close>.
  \<^item> \<open>Page\<close>: \<open>tabFilter\<close>, \<open>heCount\<close>, \<open>pasCount\<close>, \<open>fetchImagesDone\<close>,
    \<open>setSelectedImage\<close>, the rendered view \<open>renderPage\<close>, and the composed
    system: the record \<open>page\<close>
    holding the page's state and its children's, \<open>page_step\<close> over
    \<open>page_event\<close>, the enabling guards \<open>page_enabled\<close>, the reachable states
    \<open>page_reachable\<close> and runs \<open>page_run\<close>.  React's semantics is modelled
    as the code relies on it: a child keeps its state while mounted and drops
    it on unmount; an effect with a dependency runs when the dependency
    changes; each event is handled after the previous render.
  \<^item> \<open>Spec2Isabelle\<close> (this theory): the properties that span the server
    and the client.

  \<^bold>\<open>What is proved.\<close>
  Navigation is bounded with no wrap-around and moves one position per key
  press (\<open>goToNext_bounded\<close>, \<open>goToPrevious_bounded\<close>,
  \<open>arrow_right_presses\<close>); the page invariant holds in every reachable state
  (\<open>page_invariant\<close>); the page refines an abstract machine of viewer modes
  (\<open>Page.mode_next\<close>, read off the page by \<open>Page.mode_of\<close>) event by event
  (\<open>page_step_refines_modes\<close>), and in the specification's five modes every
  step keeps the mode, is a step of the specification, or is one of three
  extra steps the code has (\<open>page_step_mode_allowed\<close>,
  \<open>code_extra_not_spec\<close>); the lister, image and mask routes on every
  branch, errors included; the label derivation as a split/join round trip;
  the search's case-insensitivity on the term and on the names, and its
  narrowing; that the rewrites bring \<open>/images/<f>\<close> and \<open>/masks/<f>\<close> to
  their handlers (\<open>serve_routes\<close>); that each arrow is rendered exactly when
  its click navigates (\<open>arrows_match_navigation\<close>) and that the gallery's
  total agrees with the active tab's count (\<open>render_counts_agree\<close>); and end
  to end, that the viewer's mask overlay shows the mask exactly when
  \<open>public/masks\<close> holds \<open>X_mask.png\<close> for \<open>X.jpg\<close>
  (\<open>mask_overlay_end_to_end\<close>), that the listing reaches the gallery with
  distinct names, and that every listed image's \<open>url\<close> is served.

  \<^bold>\<open>Findings the development shows.\<close>  The image route reads
  \<open>../dataset_web_jpeg\<close> while the lister reads \<open>public/jpegs\<close>
  (\<open>ApiRoutes.GET_image_cases\<close>), so a listed image is served under
  \<open>/jpegs/\<close> (\<open>jpeg_urls_served\<close>) but not by \<open>/images/\<close> unless the
  other directory holds it too; the label keeps the fields as they are, so the
  specification's example reads \<open>H&E Slide S3 ROI ROI2\<close>
  (\<open>Gallery.getImageLabel_fields\<close>); the viewer ignores the gallery's
  search and navigates the tab's list (\<open>Page.navigation_ignores_search\<close>),
  and a tab switch while viewing leaves the selection outside the list
  (\<open>Page.tab_switch_leaves_list\<close>); the mask route answers 404 for every
  read failure and does not confine its path
  (\<open>ApiRoutes.GET_mask_missing_404\<close>, \<open>ApiRoutes.GET_mask_traversal\<close>); a
  failed mask stays failed when the mask is hidden and shown again, with no
  new request (\<open>Page.mask_failure_sticky\<close>); a failed listing ends in the
  gallery's \<open>No images found\<close> hint (\<open>listing_failure_empty\<close>); and the
  opacity slider is live whenever the mask is switched on, also while it
  loads or after it failed (\<open>Page.opacity_live_while_mask_on\<close>).

  \<^bold>\<open>Bounds and abstractions.\<close>  No fuel is needed: every loop of the code is a
  structural recursion over a list (\<open>filter\<close>, \<open>findIndex\<close>, string
  scans).  Strings are lists of code units below 256.  The opacity is kept in
  tenths, which is exact for a slider with step 0.1.  The browser's image
  loading is abstracted to one event per request: load on status 200, error
  otherwise (\<open>mask_load_event\<close>); decoding of the bytes is not modelled.
  URLs are taken as already percent-decoded.

  \<^bold>\<open>Not modelled.\<close>  Styling and layout (CSS, class names), the lazy loading
  of thumbnails, \<open>console.error\<close> logging, the commented-out resizing route
  (it is not compiled), and the \<open>images.unoptimized\<close> option of
  \<open>next.config.js\<close> (it concerns \<open>next/image\<close>, which the code does not use).
\<close>

section \<open>The browser's image request\<close>

text \<open>
  The mask \<open><img>\<close> fires \<open>onLoad\<close> when its request succeeds and
  \<open>onError\<close> otherwise.
\<close>

definition mask_load_event :: "response \<Rightarrow> viewer_event" where
  "mask_load_event r = (if status r = 200 then MaskLoad else MaskLoadError)"

section \<open>Server and client together\<close>

text \<open>C4: end to end, for an open viewer on \<open>X.jpg\<close> with the mask switched on: the
  viewer requests \<open>/masks/X.jpg\<close>, the server answers from \<open>public/masks/X_mask.png\<close>,
  and the overlay then shows the mask if that file exists and \<open>Mask Not Available\<close>
  otherwise.\<close>

theorem mask_overlay_end_to_end:
  assumes "selectedImage p = Some img" and "\<not> page_loading p"
    and "showMask (viewer_state p)" and "\<not> maskError (viewer_state p)"
    and "filename img = x @ ''.jpg''" and "\<not> sublist ''.jpg'' (x @ ''.jp'')"
    and "valid_name (x @ ''.jpg'')" and "valid_name (x @ ''_mask.png'')"
    and "\<forall>b. fs_lookup fs (cwd @ [''public'', ''masks'', x @ ''.jpg'']) \<noteq> Some (File b)"
  shows "mask_src (renderViewer img (page_filtered p) (viewer_state p)) = Some (''/masks/'' @ filename img) \<and>
    page_enabled p (ViewerEvent (mask_load_event (serve cwd fs (''/masks/'' @ filename img)))) \<and>
    overlay_of (viewer_state (page_step p (ViewerEvent (mask_load_event (serve cwd fs (''/masks/'' @ filename img)))))) =
      (if \<exists>b. fs_lookup fs (cwd @ [''public'', ''masks'', x @ ''_mask.png'']) = Some (File b)
       then MaskShown else MaskUnavailable)"
proof -
  define u where "u = ''/masks/'' @ filename img"
  let ?found = "\<exists>b. fs_lookup fs (cwd @ [''public'', ''masks'', x @ ''_mask.png'']) = Some (File b)"
  have src: "mask_src (renderViewer img (page_filtered p) (viewer_state p)) = Some u"
    using assms(3,4) by (simp add: renderViewer_def Let_def u_def)
  have mf: "mask_filename (filename img) = x @ ''_mask.png''"
    using assms(5,6) by (simp add: mask_filename_strip)
  have srv: "serve cwd fs u = GET_mask cwd fs (filename img)"
    unfolding u_def using assms(5,7,9) serve_mask_url [of "filename img" fs cwd] by simp
  have ev: "mask_load_event (serve cwd fs u) = (if ?found then MaskLoad else MaskLoadError)"
  proof (cases ?found)
    case True
    then obtain b where "fs_lookup fs (cwd @ [''public'', ''masks'', mask_filename (filename img)]) = Some (File b)"
      using mf by auto
    with True assms(8) mf show ?thesis
      by (simp add: srv GET_mask_file mask_load_event_def)
  next
    case False
    then have "\<forall>b. fs_lookup fs (cwd @ [''public'', ''masks'', mask_filename (filename img)]) \<noteq> Some (File b)"
      using mf by auto
    with False assms(8) mf show ?thesis
      by (simp add: srv GET_mask_nofile mask_load_event_def json_response_def)
  qed
  show ?thesis
    unfolding u_def [symmetric]
    using src ev assms(1-4)
    by (simp add: handleViewerOut_def overlay_of_def split: if_splits)
qed


lemma fetch_listing:
  assumes "fs_lookup fs (cwd @ [''public'', ''jpegs'']) = Some (Dir ns)"
  shows "fetchImagesDone page_init (responseJson (GET_images cwd fs)) =
    page_init\<lparr>page_images := map mkImageData (filter (\<lambda>f. suffix ''.jpg'' f) ns), page_loading := False\<rparr>"
  using assms by (simp add: GET_images_dir responseJson_def json_response_def fetchImagesDone_def page_init_def)

text \<open>C24: end to end, the listing of a well-formed \<open>public/jpegs\<close> reaches the
  page: after the fetch the page holds exactly the \<open>.jpg\<close> entries, in order,
  with distinct names, and is no longer loading.\<close>

theorem listing_reaches_gallery:
  assumes "fs_wf fs" and "fs_lookup fs (cwd @ [''public'', ''jpegs'']) = Some (Dir ns)"
  shows "page_enabled page_init (FetchResolved (responseJson (GET_images cwd fs))) \<and>
    map filename (page_images (page_step page_init (FetchResolved (responseJson (GET_images cwd fs))))) =
      filter (\<lambda>f. suffix ''.jpg'' f) ns \<and>
    distinct (map filename (page_images (page_step page_init (FetchResolved (responseJson (GET_images cwd fs)))))) \<and>
    \<not> page_loading (page_step page_init (FetchResolved (responseJson (GET_images cwd fs))))"
proof -
  have "distinct ns" using fs_wf_dir [OF assms] by simp
  moreover have "page_loading page_init" by (simp add: page_init_def)
  ultimately show ?thesis
    using assms(2) by (simp add: fetch_listing comp_def mkImageData_def)
qed

text \<open>C25: end to end, the \<open>url\<close> the page gives a listed image is served by the
  server: a file of \<open>public/jpegs\<close> comes back with status 200 as \<open>image/jpeg\<close>.\<close>

theorem jpeg_urls_served:
  assumes "fs_wf fs" and "fs_lookup fs (cwd @ [''public'', ''jpegs'']) = Some (Dir ns)"
    and "x \<in> set (page_images (page_step page_init (FetchResolved (responseJson (GET_images cwd fs)))))"
    and "fs_lookup fs (cwd @ [''public'', ''jpegs'', filename x]) = Some (File b)"
  shows "serve cwd fs (url x) = \<lparr>status = 200, content_type = ''image/jpeg'', cache_control = None, body = Raw b\<rparr>"
proof -
  obtain f where f: "f \<in> set ns" "suffix ''.jpg'' f" and x: "x = mkImageData f"
    using assms(2,3) by (auto simp: fetch_listing)
  have "valid_name f" using fs_wf_dir [OF assms(1,2)] f(1) by simp
  moreover have "mime_of f = ''image/jpeg''" using f(2) by (simp add: mime_of_def)
  ultimately show ?thesis
    using assms(4) serve_jpegs_url [of f fs cwd b] x by (simp add: mkImageData_def)
qed

text \<open>C29: end to end, when \<open>public/jpegs\<close> cannot be listed the page stops
  loading with no images and the gallery shows its \<open>No images found\<close> message.\<close>

theorem listing_failure_empty:
  assumes "\<forall>ns. fs_lookup fs (cwd @ [''public'', ''jpegs'']) \<noteq> Some (Dir ns)"
  shows "page_images (page_step page_init (FetchResolved (responseJson (GET_images cwd fs)))) = [] \<and>
    \<not> page_loading (page_step page_init (FetchResolved (responseJson (GET_images cwd fs)))) \<and>
    empty_message (renderGallery (page_filtered (page_step page_init (FetchResolved (responseJson (GET_images cwd fs)))))
      (gallery_state (page_step page_init (FetchResolved (responseJson (GET_images cwd fs))))))"
  using assms
  by (simp add: GET_images_nodir responseJson_def json_response_def fetchImagesDone_def page_init_def
      renderGallery_def page_filtered_def tabFilter_def filteredImages_def)

section \<open>Witnesses\<close>

lemma mask_overlay_end_to_end_witness:
  "overlay_of (viewer_state (page_step
      (the (page_run page_init [FetchResolved (FetchJson (Some [''HE_1.jpg''])), GalleryEvent (ItemClick 0), ViewerEvent (KeyDown ''M'')]))
      (ViewerEvent (mask_load_event (serve [''app''] [([''app'', ''public'', ''masks'', ''HE_1_mask.png''], File [137, 80])] ''/masks/HE_1.jpg''))))) =
    MaskShown"
proof -
  let ?p = "the (page_run page_init [FetchResolved (FetchJson (Some [''HE_1.jpg''])), GalleryEvent (ItemClick 0), ViewerEvent (KeyDown ''M'')])"
  let ?fs = "[([''app'', ''public'', ''masks'', ''HE_1_mask.png''], File [137, 80])] :: fs"
  have p: "selectedImage ?p = Some (mkImageData ''HE_1.jpg'') \<and> \<not> page_loading ?p \<and>
      showMask (viewer_state ?p) \<and> \<not> maskError (viewer_state ?p)"
    by (simp add: ui_simps js_simps)
  have "\<exists>b. fs_lookup ?fs ([''app''] @ [''public'', ''masks'', ''HE_1'' @ ''_mask.png'']) = Some (File b)"
    by (simp add: fs_lookup_def)
  then show ?thesis
    using p mask_overlay_end_to_end [of ?p "mkImageData ''HE_1.jpg''" "''HE_1''" ?fs "[''app'']"]
    by (simp add: mkImageData_def valid_name_def fs_lookup_def sublist_code)
qed

lemma listing_reaches_gallery_witness:
  "map filename (page_images (page_step page_init (FetchResolved (responseJson (GET_images [''srv'', ''app'']
     [([], Dir [''srv'']), ([''srv''], Dir [''app'']), ([''srv'', ''app''], Dir [''public'']),
      ([''srv'', ''app'', ''public''], Dir [''jpegs'']),
      ([''srv'', ''app'', ''public'', ''jpegs''], Dir [''HE_1.jpg'', ''notes.txt'']),
      ([''srv'', ''app'', ''public'', ''jpegs'', ''HE_1.jpg''], File [255, 216]),
      ([''srv'', ''app'', ''public'', ''jpegs'', ''notes.txt''], File [])]))))) = [''HE_1.jpg'']"
  using listing_reaches_gallery
    [of "[([], Dir [''srv'']), ([''srv''], Dir [''app'']), ([''srv'', ''app''], Dir [''public'']),
      ([''srv'', ''app'', ''public''], Dir [''jpegs'']),
      ([''srv'', ''app'', ''public'', ''jpegs''], Dir [''HE_1.jpg'', ''notes.txt'']),
      ([''srv'', ''app'', ''public'', ''jpegs'', ''HE_1.jpg''], File [255, 216]),
      ([''srv'', ''app'', ''public'', ''jpegs'', ''notes.txt''], File [])]" "[''srv'', ''app'']"
      "[''HE_1.jpg'', ''notes.txt'']"]
  by (simp add: fs_wf_def fs_lookup_def valid_name_def js_simps)

lemma jpeg_urls_served_witness:
  "serve [''srv'', ''app'']
     [([], Dir [''srv'']), ([''srv''], Dir [''app'']), ([''srv'', ''app''], Dir [''public'']),
      ([''srv'', ''app'', ''public''], Dir [''jpegs'']),
      ([''srv'', ''app'', ''public'', ''jpegs''], Dir [''HE_1.jpg'']),
      ([''srv'', ''app'', ''public'', ''jpegs'', ''HE_1.jpg''], File [255, 216])] (url (mkImageData ''HE_1.jpg'')) =
   \<lparr>status = 200, content_type = ''image/jpeg'', cache_control = None, body = Raw [255, 216]\<rparr>"
  using jpeg_urls_served
    [of "[([], Dir [''srv'']), ([''srv''], Dir [''app'']), ([''srv'', ''app''], Dir [''public'']),
      ([''srv'', ''app'', ''public''], Dir [''jpegs'']),
      ([''srv'', ''app'', ''public'', ''jpegs''], Dir [''HE_1.jpg'']),
      ([''srv'', ''app'', ''public'', ''jpegs'', ''HE_1.jpg''], File [255, 216])]" "[''srv'', ''app'']"
      "[''HE_1.jpg'']" "mkImageData ''HE_1.jpg''" "[255, 216]"]
  by (simp add: fs_wf_def fs_lookup_def valid_name_def js_simps route_simps ui_simps)

lemma listing_failure_empty_witness:
  "page_images (page_step page_init (FetchResolved (responseJson (GET_images [''srv'', ''app''] [])))) = [] \<and>
   empty_message (renderGallery (page_filtered (page_step page_init (FetchResolved (responseJson (GET_images [''srv'', ''app''] [])))))
      (gallery_state (page_step page_init (FetchResolved (responseJson (GET_images [''srv'', ''app''] []))))))"
  using listing_failure_empty [of "[]" "[''srv'', ''app'']"] by (simp add: fs_lookup_def)

end
